theory Spec2Isabelle
  imports Main "HOL-Library.AList" "HOL-Library.Multiset"
begin

section \<open>wokkel.muc: the XMPP Multi-User Chat client\<close>

text \<open>
  A shallow embedding of \<^verbatim>\<open>src/wokkel/muc.py\<close>. Python objects that are shared and
  mutated (Room, Deferred, delayed calls of the reactor) live in explicit stores indexed by
  addresses; dictionaries are association lists with unique keys; exceptions are values of
  the type \<open>exn\<close>, and a method that can raise after it has changed the state returns the
  exception together with the state it left behind.
\<close>

subsection \<open>Strings\<close>

text \<open>
  \<^verbatim>\<open>str.lower()\<close>. Characters are bytes here, and only the ASCII letters have a case.
\<close>

definition lower_char :: "char \<Rightarrow> char" where
  "lower_char c =
     (case map_of (zip ''ABCDEFGHIJKLMNOPQRSTUVWXYZ'' ''abcdefghijklmnopqrstuvwxyz'') c of
        None \<Rightarrow> c
      | Some l \<Rightarrow> l)"

definition lower :: "string \<Rightarrow> string" where
  "lower s = map lower_char s"

text \<open>\<^verbatim>\<open>str.find(c)\<close>: the index of the first occurrence, \<open>None\<close> for Python's \<open>-1\<close>.\<close>

fun find_char :: "char \<Rightarrow> string \<Rightarrow> nat option" where
  "find_char c [] = None"
| "find_char c (x # xs) = (if x = c then Some 0 else map_option Suc (find_char c xs))"

text \<open>\<^verbatim>\<open>s or None\<close> on a string.\<close>

definition or_None :: "string \<Rightarrow> string option" where
  "or_None s = (if s = [] then None else Some s)"

subsection \<open>Exceptions\<close>

datatype exn =
    AttributeError string
  | KeyError string
  | Exception string
  | InvalidFormat string
  | SyntaxError string
  | AlreadyCalledError
  | TypeError string
  | TimeoutError string
  | StanzaError string

subsection \<open>Jabber identifiers (twisted.words.protocols.jabber.jid)\<close>

text \<open>
  The JID library is outside the repository. The model follows its \<^verbatim>\<open>parse\<close>
  (split at the first \<^verbatim>\<open>@\<close> and the first \<^verbatim>\<open>/\<close>) and keeps of its \<^verbatim>\<open>prep\<close> what the
  handler depends on: node and domain are case-folded, an empty domain is refused, and so is
  a domain with an \<^verbatim>\<open>@\<close> in it (one of the characters nameprep prohibits).
\<close>

record jid =
  user :: "string option"
  host :: string
  resource :: "string option"

definition parse :: "string \<Rightarrow> string option \<times> string \<times> string option" where
  "parse jidstring =
     (case (find_char (CHR ''@'') jidstring, find_char (CHR ''/'') jidstring) of
        (None, None) \<Rightarrow> (None, jidstring, None)
      | (None, Some res_sep) \<Rightarrow>
          (None, take res_sep jidstring, or_None (drop (res_sep + 1) jidstring))
      | (Some user_sep, None) \<Rightarrow>
          (or_None (take user_sep jidstring), drop (user_sep + 1) jidstring, None)
      | (Some user_sep, Some res_sep) \<Rightarrow>
          if user_sep < res_sep
          then (or_None (take user_sep jidstring),
                take (res_sep - (user_sep + 1)) (drop (user_sep + 1) jidstring),
                or_None (drop (res_sep + 1) jidstring))
          else (None, take res_sep jidstring, or_None (drop (res_sep + 1) jidstring)))"

definition prep :: "string option \<times> string \<times> string option \<Rightarrow> exn + jid" where
  "prep p =
     (case p of (u, h, r) \<Rightarrow>
        if h = [] then Inl (InvalidFormat ''Server address required.'')
        else if CHR ''@'' \<in> set h then Inl (InvalidFormat ''Invalid character in hostname'')
        else Inr \<lparr>user = map_option lower u, host = lower h, resource = r\<rparr>)"

definition internJID :: "string \<Rightarrow> exn + jid" where
  "internJID jidstring = prep (parse jidstring)"

text \<open>\<^verbatim>\<open>JID.userhost()\<close> and \<^verbatim>\<open>JID.full()\<close>; an empty string is falsy as \<open>None\<close> is.\<close>

definition truthy :: "string option \<Rightarrow> bool" where
  "truthy s = (s \<noteq> None \<and> s \<noteq> Some [])"

definition userhost :: "jid \<Rightarrow> string" where
  "userhost j = (if truthy (user j) then the (user j) @ ''@'' @ host j else host j)"

definition full :: "jid \<Rightarrow> string" where
  "full j =
     (if truthy (user j)
      then (if truthy (resource j)
            then the (user j) @ ''@'' @ host j @ ''/'' @ the (resource j)
            else the (user j) @ ''@'' @ host j)
      else (if truthy (resource j) then host j @ ''/'' @ the (resource j) else host j))"

subsection \<open>User and Room\<close>

text \<open>
  \<^verbatim>\<open>User.nick\<close> is whatever the constructor was given: \<^verbatim>\<open>_onXPresence\<close> passes the
  resource of a JID, which is \<open>None\<close> for a bare JID.
\<close>

record user =
  nick :: "string option"
  user_jid :: "jid option"
  affiliation :: string
  role :: string
  status :: "string option"
  "show" :: "string option"

definition User :: "string option \<Rightarrow> user" where
  "User n = \<lparr>nick = n, user_jid = None, affiliation = ''none'', role = ''none'',
             status = None, show = None\<rparr>"

text \<open>
  \<^verbatim>\<open>Room.status\<close> starts as the integer 0 and is later overwritten with the \<^verbatim>\<open>code\<close>
  attribute of a status element (a string) or with \<open>None\<close>.
\<close>

datatype status_value = StatusInt int | StatusStr string | StatusNone

record room =
  state :: "string option"
  name :: string
  server :: string
  room_nick :: string
  room_status :: status_value
  entity_id :: jid
  roster :: "(string \<times> user) list"

text \<open>\<^verbatim>\<open>Room.entityId\<close> recomputes the occupant JID; \<^verbatim>\<open>internJID\<close> may raise.\<close>

definition entityId :: "room \<Rightarrow> exn + (jid \<times> room)" where
  "entityId r =
     (case internJID (name r @ ''@'' @ server r @ ''/'' @ room_nick r) of
        Inl e \<Rightarrow> Inl e
      | Inr j \<Rightarrow> Inr (j, r\<lparr>entity_id := j\<rparr>))"

definition Room :: "string \<Rightarrow> string \<Rightarrow> string \<Rightarrow> string option \<Rightarrow> exn + room" where
  "Room nm srv nk st =
     (case internJID (nm @ ''@'' @ srv @ ''/'' @ nk) of
        Inl e \<Rightarrow> Inl e
      | Inr j \<Rightarrow> Inr \<lparr>state = st, name = nm, server = srv, room_nick = nk,
                      room_status = StatusInt 0, entity_id = j, roster = []\<rparr>)"

text \<open>
  The roster methods call \<^verbatim>\<open>nick.lower()\<close>; on \<open>None\<close> that is an AttributeError.
\<close>

definition nick_lower :: "string option \<Rightarrow> exn + string" where
  "nick_lower n =
     (case n of
        None \<Rightarrow> Inl (AttributeError ''lower'')
      | Some s \<Rightarrow> Inr (lower s))"

definition addUser :: "room \<Rightarrow> user \<Rightarrow> exn + room" where
  "addUser r u =
     (case nick_lower (nick u) of
        Inl e \<Rightarrow> Inl e
      | Inr k \<Rightarrow> Inr (r\<lparr>roster := AList.update k u (roster r)\<rparr>))"

definition inRoster :: "room \<Rightarrow> user \<Rightarrow> exn + bool" where
  "inRoster r u =
     (case nick_lower (nick u) of
        Inl e \<Rightarrow> Inl e
      | Inr k \<Rightarrow> Inr (map_of (roster r) k \<noteq> None))"

definition getUser :: "room \<Rightarrow> string option \<Rightarrow> exn + user option" where
  "getUser r n =
     (case nick_lower n of
        Inl e \<Rightarrow> Inl e
      | Inr k \<Rightarrow> Inr (map_of (roster r) k))"

definition removeUser :: "room \<Rightarrow> user \<Rightarrow> exn + room" where
  "removeUser r u =
     (case inRoster r u of
        Inl e \<Rightarrow> Inl e
      | Inr False \<Rightarrow> Inr r
      | Inr True \<Rightarrow>
          (case nick_lower (nick u) of
             Inl e \<Rightarrow> Inl e
           | Inr k \<Rightarrow> Inr (r\<lparr>roster := AList.delete k (roster r)\<rparr>)))"





subsection \<open>XML elements (twisted.words.xish.domish)\<close>

text \<open>
  An element has a name, a namespace, a dictionary of attributes and a list of children,
  which are elements or character data. The element library is outside the repository; the
  functions below are the calls the handler makes on it.
\<close>

datatype element =
  Element (el_name: string) (uri: "string option") (attributes: "(string \<times> string) list")
    (children: "node list")
and node = Child element | CData string

definition hasAttribute :: "element \<Rightarrow> string \<Rightarrow> bool" where
  "hasAttribute e k = (map_of (attributes e) k \<noteq> None)"

text \<open>\<^verbatim>\<open>e.getAttribute(k, None)\<close>.\<close>

definition getAttribute :: "element \<Rightarrow> string \<Rightarrow> string option" where
  "getAttribute e k = map_of (attributes e) k"

text \<open>\<^verbatim>\<open>e[k]\<close> raises KeyError on a missing attribute.\<close>

definition getitem :: "element \<Rightarrow> string \<Rightarrow> exn + string" where
  "getitem e k = (case map_of (attributes e) k of None \<Rightarrow> Inl (KeyError k) | Some v \<Rightarrow> Inr v)"

text \<open>\<^verbatim>\<open>e[k] = v\<close>.\<close>

definition setitem :: "element \<Rightarrow> string \<Rightarrow> string \<Rightarrow> element" where
  "setitem e k v = Element (el_name e) (uri e) (AList.update k v (attributes e)) (children e)"

text \<open>\<^verbatim>\<open>e.elements()\<close>: the children that are elements.\<close>

fun elements :: "node list \<Rightarrow> element list" where
  "elements [] = []"
| "elements (Child c # ns) = c # elements ns"
| "elements (CData t # ns) = elements ns"

text \<open>
  Attribute-style access \<^verbatim>\<open>e.x\<close>: the first child element of that name, whatever its
  namespace, and \<open>None\<close> when there is none.
\<close>

definition child_named :: "element \<Rightarrow> string \<Rightarrow> element option" where
  "child_named e n = List.find (\<lambda>c. el_name c = n) (elements (children e))"

text \<open>\<^verbatim>\<open>getattr(e, n, None)\<close> where \<^verbatim>\<open>e\<close> itself may be \<open>None\<close>.\<close>

definition getattr :: "element option \<Rightarrow> string \<Rightarrow> element option" where
  "getattr e n = (case e of None \<Rightarrow> None | Some x \<Rightarrow> child_named x n)"

text \<open>\<^verbatim>\<open>e.addChild(c)\<close> and \<^verbatim>\<open>e.addElement(name, defaultUri, content)\<close>.\<close>

definition addChild :: "element \<Rightarrow> element \<Rightarrow> element" where
  "addChild e c = Element (el_name e) (uri e) (attributes e) (children e @ [Child c])"

definition new_element :: "element \<Rightarrow> string \<Rightarrow> string option \<Rightarrow> string option \<Rightarrow> element" where
  "new_element parent n defaultUri content =
     Element n (case defaultUri of None \<Rightarrow> uri parent | Some u \<Rightarrow> Some u) []
       (case content of None \<Rightarrow> [] | Some t \<Rightarrow> if t = [] then [] else [CData t])"

definition addElement :: "element \<Rightarrow> string \<Rightarrow> string option \<Rightarrow> string option \<Rightarrow> element" where
  "addElement e n defaultUri content = addChild e (new_element e n defaultUri content)"

text \<open>\<^verbatim>\<open>unicode(e)\<close>: the first character-data child, and \<^verbatim>\<open>u'None'\<close> for \<open>None\<close>.\<close>

fun first_cdata :: "node list \<Rightarrow> string" where
  "first_cdata [] = []"
| "first_cdata (CData t # ns) = t"
| "first_cdata (Child c # ns) = first_cdata ns"

definition unicode :: "element option \<Rightarrow> string" where
  "unicode e = (case e of None \<Rightarrow> ''None'' | Some x \<Rightarrow> first_cdata (children x))"

subsection \<open>Constants\<close>

definition NS_MUC :: string where
  "NS_MUC = ''http://jabber.org/protocol/muc''"

definition NS_DELAY :: string where
  "NS_DELAY = ''urn:xmpp:delay''"

definition NS_JABBER_DELAY :: string where
  "NS_JABBER_DELAY = ''jabber:x:delay''"

definition DEFER_TIMEOUT :: nat where
  "DEFER_TIMEOUT = 30"

subsection \<open>Stanza queries\<close>

text \<open>
  The XPath-like queries the handler registers observers with:
  \<^verbatim>\<open>/presence[not(@type) or @type='available']/x\<close>, \<^verbatim>\<open>/presence[@type='T']\<close>,
  \<^verbatim>\<open>/message[@type='T']/C\<close>, \<^verbatim>\<open>/presence[@from='J']\<close> and
  \<^verbatim>\<open>/presence[@from='J' and @type='T']\<close>.
\<close>

datatype xpath =
    PresenceAvailableX
  | PresenceType string
  | MessageTypeChild string string
  | PresenceFrom string
  | PresenceFromType string string

definition matches :: "xpath \<Rightarrow> element \<Rightarrow> bool" where
  "matches q e =
     (case q of
        PresenceAvailableX \<Rightarrow>
          el_name e = ''presence''
          \<and> (\<not> hasAttribute e ''type'' \<or> getAttribute e ''type'' = Some ''available'')
          \<and> child_named e ''x'' \<noteq> None
      | PresenceType t \<Rightarrow> el_name e = ''presence'' \<and> getAttribute e ''type'' = Some t
      | MessageTypeChild t c \<Rightarrow>
          el_name e = ''message'' \<and> getAttribute e ''type'' = Some t \<and> child_named e c \<noteq> None
      | PresenceFrom j \<Rightarrow> el_name e = ''presence'' \<and> getAttribute e ''from'' = Some j
      | PresenceFromType j t \<Rightarrow>
          el_name e = ''presence'' \<and> getAttribute e ''from'' = Some j
          \<and> getAttribute e ''type'' = Some t)"

text \<open>
  The literals of a query are written between single quotes (\<^verbatim>\<open>"[@from='%s']" % ...\<close>), so
  a literal with a single quote in it does not give a query that parses.
\<close>

definition literals :: "xpath \<Rightarrow> string list" where
  "literals q =
     (case q of
        PresenceAvailableX \<Rightarrow> []
      | PresenceType t \<Rightarrow> [t]
      | MessageTypeChild t c \<Rightarrow> [t]
      | PresenceFrom j \<Rightarrow> [j]
      | PresenceFromType j t \<Rightarrow> [j, t])"

definition well_quoted :: "xpath \<Rightarrow> bool" where
  "well_quoted q = list_all (\<lambda>l. CHR 0x27 \<notin> set l) (literals q)"

subsection \<open>Stanza builders\<close>

text \<open>
  Modelled from the spec: \<^verbatim>\<open>xmppim.AvailablePresence\<close> and \<^verbatim>\<open>xmppim.UnavailablePresence\<close>
  belong to this package but their source is not among the given files. The spec describes
  the first as an available presence stanza addressed to an occupant JID (a presence with no
  type) and the second as a presence of type unavailable. The handler passes them a
  recipient only.
\<close>

definition Presence :: "jid option \<Rightarrow> string option \<Rightarrow> element" where
  "Presence to type =
     (let e0 = Element ''presence'' None [] [];
          e1 = (if truthy type then setitem e0 ''type'' (the type) else e0)
      in case to of None \<Rightarrow> e1 | Some j \<Rightarrow> setitem e1 ''to'' (full j))"

definition AvailablePresence :: "jid option \<Rightarrow> element" where
  "AvailablePresence to = Presence to None"

definition UnavailablePresence :: "jid option \<Rightarrow> element" where
  "UnavailablePresence to = Presence to (Some ''unavailable'')"

text \<open>\<^verbatim>\<open>BasicPresence\<close>: an available presence with an empty \<^verbatim>\<open>x\<close> child in the MUC namespace.\<close>

definition BasicPresence :: "jid option \<Rightarrow> element" where
  "BasicPresence to = addElement (AvailablePresence to) ''x'' (Some NS_MUC) None"

subsection \<open>Time stamps\<close>

record datetime =
  year :: nat
  month :: nat
  day :: nat
  hour :: nat
  minute :: nat
  second :: nat

definition digit :: "nat \<Rightarrow> char" where
  "digit n = ''0123456789'' ! (n mod 10)"

definition pad2 :: "nat \<Rightarrow> string" where
  "pad2 n = [digit (n div 10), digit n]"

definition pad4 :: "nat \<Rightarrow> string" where
  "pad4 n = [digit (n div 1000), digit (n div 100), digit (n div 10), digit n]"

text \<open>\<^verbatim>\<open>stamp.strftime('%Y%m%dT%H:%M:%S')\<close>, for a year of four digits.\<close>

definition strftime :: "datetime \<Rightarrow> string" where
  "strftime t =
     pad4 (year t) @ pad2 (month t) @ pad2 (day t) @ ''T'' @ pad2 (hour t) @ '':''
       @ pad2 (minute t) @ '':'' @ pad2 (second t)"

subsection \<open>Python values\<close>

text \<open>
  The values the handler passes around without regard to their type: results of deferreds,
  arguments of the event hooks, entries of a message list. A Room is passed by reference
  (its address in the store of rooms).
\<close>

datatype pyval =
    VNone
  | VBool bool
  | VStr string
  | VRoom nat
  | VJID jid
  | VUser user
  | VElement element
  | VDatetime datetime
  | VExc exn
  | VDict "(string \<times> pyval) list"

datatype outcome = Success pyval | Failure pyval

subsection \<open>The state of the process\<close>

text \<open>
  A Deferred holds no result until it is fired; \<open>call\<close> is the delayed call that its
  \<^verbatim>\<open>cancelTimeout\<close> callback closes over.
\<close>

record deferred =
  result :: "outcome option"
  call :: nat

text \<open>A delayed call of the reactor; its function is the \<^verbatim>\<open>onTimeout\<close> of one deferred.\<close>

record delayed_call =
  dc_time :: nat
  dc_deferred :: nat
  dc_cancelled :: bool
  dc_called :: bool

datatype callback =
    OnXPresence
  | OnUnavailablePresence
  | OnPresenceError
  | OnGroupChat
  | OnSubject
  | JoinedRoom nat
  | LeftRoom nat
  | Changed nat jid

record observer =
  pattern :: xpath
  handler :: callback
  onetime :: bool
  priority :: nat

record xmlstream =
  observers :: "observer list"
  "output" :: "element list"

text \<open>
  \<open>rooms\<close> and \<open>deferreds\<close> are \<^verbatim>\<open>MUCClient.rooms\<close> and \<^verbatim>\<open>MUCClient._deferreds\<close>: they are
  assigned in the class body, no method ever assigns \<^verbatim>\<open>self.rooms\<close> or
  \<^verbatim>\<open>self._deferreds\<close>, and so every instance reads and mutates the one dictionary and the
  one list of the class. \<open>xmlstreams\<close> gives each handler instance its own stream. The
  reactor (\<open>calls\<close>, \<open>seconds\<close>) and the wall clock \<open>now\<close> are global. \<open>hooks\<close> records the
  calls of the event hooks (instance, method name, arguments) and \<open>logged\<close> the exceptions
  that the stream's dispatcher and the reactor catch and log.
\<close>

record world =
  rooms :: "(string \<times> nat) list"
  deferreds :: "nat list"
  room_store :: "nat \<Rightarrow> room"
  room_count :: nat
  deferred_store :: "nat \<Rightarrow> deferred"
  deferred_count :: nat
  xmlstreams :: "nat \<Rightarrow> xmlstream"
  calls :: "nat \<Rightarrow> delayed_call"
  call_count :: nat
  seconds :: nat
  now :: datetime
  hooks :: "(nat \<times> string \<times> pyval list) list"
  logged :: "exn list"

definition hook :: "nat \<Rightarrow> string \<Rightarrow> pyval list \<Rightarrow> world \<Rightarrow> world" where
  "hook self method args w = w\<lparr>hooks := hooks w @ [(self, method, args)]\<rparr>"

definition set_room :: "nat \<Rightarrow> room \<Rightarrow> world \<Rightarrow> world" where
  "set_room a r w = w\<lparr>room_store := (room_store w)(a := r)\<rparr>"

definition new_room :: "room \<Rightarrow> world \<Rightarrow> nat \<times> world" where
  "new_room r w =
     (room_count w, w\<lparr>room_store := (room_store w)(room_count w := r),
                       room_count := room_count w + 1\<rparr>)"

subsection \<open>Deferreds and the reactor (twisted.internet)\<close>

text \<open>
  \<^verbatim>\<open>cancelTimeout\<close>, the callback that \<^verbatim>\<open>sendDeferred\<close> adds with \<^verbatim>\<open>addBoth\<close>: it cancels
  the delayed call if that is still active and passes the result on.
\<close>

definition cancelTimeout :: "nat \<Rightarrow> world \<Rightarrow> world" where
  "cancelTimeout d w =
     (let c = call (deferred_store w d); dc = calls w c
      in if \<not> dc_cancelled dc \<and> \<not> dc_called dc
         then w\<lparr>calls := (calls w)(c := dc\<lparr>dc_cancelled := True\<rparr>)\<rparr>
         else w)"

text \<open>
  Firing a deferred: a second firing raises AlreadyCalledError; the first stores the
  result and runs the callbacks, of which the handler adds only \<^verbatim>\<open>cancelTimeout\<close>.
\<close>

definition fire :: "nat \<Rightarrow> outcome \<Rightarrow> world \<Rightarrow> exn option \<times> world" where
  "fire d res w =
     (if result (deferred_store w d) \<noteq> None then (Some AlreadyCalledError, w)
      else (None,
            cancelTimeout d
              (w\<lparr>deferred_store :=
                   (deferred_store w)(d := (deferred_store w d)\<lparr>result := Some res\<rparr>)\<rparr>)))"

text \<open>
  \<^verbatim>\<open>d.callback(v)\<close>, and \<^verbatim>\<open>d.errback(v)\<close>, which wraps any object it is given in a Failure.
\<close>

definition callback :: "nat \<Rightarrow> pyval \<Rightarrow> world \<Rightarrow> exn option \<times> world" where
  "callback d v w = fire d (Success v) w"

definition errback :: "nat \<Rightarrow> pyval \<Rightarrow> world \<Rightarrow> exn option \<times> world" where
  "errback d v w = fire d (Failure v) w"

text \<open>\<^verbatim>\<open>list.pop(i)\<close> for an index in range.\<close>

definition pop :: "nat \<Rightarrow> 'a list \<Rightarrow> 'a list" where
  "pop i xs = take i xs @ drop (i + 1) xs"

lemma deferreds_fire: "fire d res w = (e, w') \<Longrightarrow> deferreds w' = deferreds w"
  by (auto simp: fire_def cancelTimeout_def Let_def split: if_splits)

text \<open>
  \<^verbatim>\<open>onTimeout\<close>, the closure of \<^verbatim>\<open>sendDeferred\<close> for the deferred \<open>d\<close>. The loop walks the
  list \<^verbatim>\<open>self._deferreds\<close> by position while it pops from it; \<open>i\<close> is both the position of the
  iterator and the counter of the source.
\<close>

function onTimeout_loop :: "nat \<Rightarrow> nat \<Rightarrow> world \<Rightarrow> exn option \<times> world" where
  "onTimeout_loop d i w =
     (if i < length (deferreds w)
      then (if d = deferreds w ! i
            then (case errback d (VExc (TimeoutError ''Timeout waiting for response.''))
                         (w\<lparr>deferreds := pop i (deferreds w)\<rparr>) of
                    (Some e, w') \<Rightarrow> (Some e, w')
                  | (None, w') \<Rightarrow> onTimeout_loop d (i + 1) w')
            else onTimeout_loop d (i + 1) w)
      else (None, w))"
  by pat_completeness auto
termination
  apply (relation "measure (\<lambda>(d, i, w). length (deferreds w) - i)")
    apply simp
   apply (auto simp: errback_def pop_def dest!: deferreds_fire[OF sym])
  done

declare onTimeout_loop.simps [simp del]

definition onTimeout :: "nat \<Rightarrow> world \<Rightarrow> exn option \<times> world" where
  "onTimeout d w = onTimeout_loop d 0 w"

text \<open>\<^verbatim>\<open>reactor.callLater(delay, onTimeout)\<close> for the deferred \<open>d\<close>.\<close>

definition callLater :: "nat \<Rightarrow> nat \<Rightarrow> world \<Rightarrow> nat \<times> world" where
  "callLater delay d w =
     (call_count w,
      w\<lparr>calls := (calls w)(call_count w :=
             \<lparr>dc_time = seconds w + delay, dc_deferred = d,
              dc_cancelled = False, dc_called = False\<rparr>),
        call_count := call_count w + 1\<rparr>)"

text \<open>
  Time passing on the reactor: the delayed calls that are due and still active run in the
  order of their times; an exception of a call is logged, not propagated.
\<close>

definition log_exn :: "exn option \<times> world \<Rightarrow> world" where
  "log_exn p = (case p of (None, w) \<Rightarrow> w | (Some e, w) \<Rightarrow> w\<lparr>logged := logged w @ [e]\<rparr>)"

definition run_call :: "world \<Rightarrow> nat \<Rightarrow> world" where
  "run_call w c =
     (let dc = calls w c
      in if dc_cancelled dc \<or> dc_called dc \<or> seconds w < dc_time dc then w
         else log_exn (onTimeout (dc_deferred dc)
                         (w\<lparr>calls := (calls w)(c := dc\<lparr>dc_called := True\<rparr>)\<rparr>)))"

definition advance :: "nat \<Rightarrow> world \<Rightarrow> world" where
  "advance amount w =
     (let w1 = w\<lparr>seconds := seconds w + amount\<rparr>
      in foldl run_call w1 (sort_key (\<lambda>c. dc_time (calls w1 c)) [0..<call_count w1]))"

subsection \<open>The stream of a handler (twisted.words.xish.utility, xmlstream)\<close>

definition send :: "nat \<Rightarrow> element \<Rightarrow> world \<Rightarrow> world" where
  "send self obj w =
     w\<lparr>xmlstreams := (xmlstreams w)(self :=
          (xmlstreams w self)\<lparr>output := output (xmlstreams w self) @ [obj]\<rparr>)\<rparr>"

text \<open>
  \<^verbatim>\<open>addObserver\<close> and \<^verbatim>\<open>addOnetimeObserver\<close> parse the query they are given, which raises
  on a query that does not parse.
\<close>

definition add_observer :: "nat \<Rightarrow> observer \<Rightarrow> world \<Rightarrow> exn option \<times> world" where
  "add_observer self ob w =
     (if \<not> well_quoted (pattern ob) then (Some (SyntaxError ''xpath''), w)
      else (None,
            w\<lparr>xmlstreams := (xmlstreams w)(self :=
                 (xmlstreams w self)\<lparr>observers := observers (xmlstreams w self) @ [ob]\<rparr>)\<rparr>))"

definition addObserver :: "nat \<Rightarrow> xpath \<Rightarrow> callback \<Rightarrow> world \<Rightarrow> exn option \<times> world" where
  "addObserver self q cb w =
     add_observer self \<lparr>pattern = q, handler = cb, onetime = False, priority = 0\<rparr> w"

definition addOnetimeObserver ::
  "nat \<Rightarrow> xpath \<Rightarrow> callback \<Rightarrow> nat \<Rightarrow> world \<Rightarrow> exn option \<times> world" where
  "addOnetimeObserver self q cb prio w =
     add_observer self \<lparr>pattern = q, handler = cb, onetime = True, priority = prio\<rparr> w"

subsection \<open>MUCClient: the registry of rooms\<close>

text \<open>
  The methods keep their names without the leading underscore (\<open>setRoom\<close> is \<^verbatim>\<open>_setRoom\<close>).
  \<open>self\<close> is the handler instance the method is called on. The registry does not depend
  on it: \<^verbatim>\<open>self.rooms\<close> is the dictionary of the class.
\<close>

definition setRoom :: "nat \<Rightarrow> nat \<Rightarrow> world \<Rightarrow> world" where
  "setRoom self a w =
     w\<lparr>rooms := AList.update (lower (userhost (entity_id (room_store w a)))) a (rooms w)\<rparr>"

definition getRoom :: "nat \<Rightarrow> jid \<Rightarrow> world \<Rightarrow> nat option" where
  "getRoom self room_jid w = map_of (rooms w) (lower (userhost room_jid))"

definition removeRoom :: "nat \<Rightarrow> jid \<Rightarrow> world \<Rightarrow> world" where
  "removeRoom self room_jid w =
     (if map_of (rooms w) (lower (userhost room_jid)) \<noteq> None
      then w\<lparr>rooms := AList.delete (lower (userhost room_jid)) (rooms w)\<rparr>
      else w)"

subsection \<open>MUCClient: inbound presence\<close>

definition opt_element :: "element option \<Rightarrow> pyval" where
  "opt_element e = (case e of None \<Rightarrow> VNone | Some x \<Rightarrow> VElement x)"

definition opt_user :: "user option \<Rightarrow> pyval" where
  "opt_user u = (case u of None \<Rightarrow> VNone | Some x \<Rightarrow> VUser x)"

definition opt_str :: "string option \<Rightarrow> pyval" where
  "opt_str t = (case t of None \<Rightarrow> VNone | Some x \<Rightarrow> VStr x)"

text \<open>\<^verbatim>\<open>e.getAttribute(k, '')\<close>.\<close>

definition getAttribute_or :: "element \<Rightarrow> string \<Rightarrow> string \<Rightarrow> string" where
  "getAttribute_or e k dflt = (case map_of (attributes e) k of None \<Rightarrow> dflt | Some v \<Rightarrow> v)"

definition userLeavesRoom :: "nat \<Rightarrow> jid \<Rightarrow> world \<Rightarrow> exn option \<times> world" where
  "userLeavesRoom self room_jid w =
     (case getRoom self room_jid w of
        None \<Rightarrow> (None, w)
      | Some a \<Rightarrow>
          (case getUser (room_store w a) (resource room_jid) of
             Inl e \<Rightarrow> (Some e, w)
           | Inr None \<Rightarrow> (None, w)
           | Inr (Some u) \<Rightarrow>
               (case inRoster (room_store w a) u of
                  Inl e \<Rightarrow> (Some e, w)
                | Inr False \<Rightarrow> (None, w)
                | Inr True \<Rightarrow>
                    (case removeUser (room_store w a) u of
                       Inl e \<Rightarrow> (Some e, w)
                     | Inr r' \<Rightarrow>
                         (None, hook self ''userLeftRoom'' [VRoom a, VUser u]
                                  (set_room a r' w))))))"

definition onUnavailablePresence :: "nat \<Rightarrow> element \<Rightarrow> world \<Rightarrow> exn option \<times> world" where
  "onUnavailablePresence self prs w =
     (if \<not> hasAttribute prs ''from'' then (None, w)
      else (case internJID (getAttribute_or prs ''from'' []) of
              Inl e \<Rightarrow> (Some e, w)
            | Inr room_jid \<Rightarrow> userLeavesRoom self room_jid w))"

definition onPresenceError :: "nat \<Rightarrow> element \<Rightarrow> world \<Rightarrow> exn option \<times> world" where
  "onPresenceError self prs w =
     (if \<not> hasAttribute prs ''from'' then (None, w)
      else (case internJID (getAttribute_or prs ''from'' []) of
              Inl e \<Rightarrow> (Some e, w)
            | Inr room_jid \<Rightarrow> userLeavesRoom self room_jid w))"

definition onXPresence :: "nat \<Rightarrow> element \<Rightarrow> world \<Rightarrow> exn option \<times> world" where
  "onXPresence self prs w =
     (if \<not> hasAttribute prs ''from'' then (None, w)
      else (case internJID (getAttribute_or prs ''from'' []) of
              Inl e \<Rightarrow> (Some e, w)
            | Inr room_jid \<Rightarrow>
                (let status = child_named prs ''status'';
                     show = child_named prs ''show''
                 in case getRoom self room_jid w of
                      None \<Rightarrow> (None, w)
                    | Some a \<Rightarrow>
                        (case getUser (room_store w a) (resource room_jid) of
                           Inl e \<Rightarrow> (Some e, w)
                         | Inr found \<Rightarrow>
                             (let u = (case found of
                                         None \<Rightarrow> User (resource room_jid)
                                       | Some u' \<Rightarrow> u')
                              in case inRoster (room_store w a) u of
                                   Inl e \<Rightarrow> (Some e, w)
                                 | Inr True \<Rightarrow>
                                     (case getattr (child_named prs ''x'') ''status'' of
                                        Some muc_status \<Rightarrow> (None, w)
                                      | None \<Rightarrow>
                                          (None, hook self ''userUpdatedStatus''
                                                   [VRoom a, VUser u, opt_element show,
                                                    opt_element status] w))
                                 | Inr False \<Rightarrow>
                                     (case addUser (room_store w a) u of
                                        Inl e \<Rightarrow> (Some e, w)
                                      | Inr r' \<Rightarrow>
                                          (None, hook self ''userJoinedRoom''
                                                   [VRoom a, VUser u] (set_room a r' w))))))))"

subsection \<open>MUCClient: inbound messages\<close>

text \<open>
  \<^verbatim>\<open>_onGroupChat\<close> calls \<^verbatim>\<open>self.receivedGroupChat\<close>, a hook that \<^verbatim>\<open>MUCClient\<close> itself does not
  define: the class that the application derives from it has to. \<open>find_delay\<close> is the last
  child element in one of the two delay namespaces, as the loop of the method leaves it.
\<close>

definition find_delay :: "element \<Rightarrow> element option" where
  "find_delay msg =
     foldl (\<lambda>delay e. if uri e = Some NS_DELAY \<or> uri e = Some NS_JABBER_DELAY
                        then Some e else delay)
       None (elements (children msg))"

definition onGroupChat :: "nat \<Rightarrow> element \<Rightarrow> world \<Rightarrow> exn option \<times> world" where
  "onGroupChat self msg w =
     (if \<not> hasAttribute msg ''from'' then (None, w)
      else (case internJID (getAttribute_or msg ''from'' []) of
              Inl e \<Rightarrow> (Some e, w)
            | Inr room_jid \<Rightarrow>
                (case getRoom self room_jid w of
                   None \<Rightarrow> (None, w)
                 | Some a \<Rightarrow>
                     (case getUser (room_store w a) (resource room_jid) of
                        Inl e \<Rightarrow> (Some e, w)
                      | Inr u \<Rightarrow>
                          (let body = unicode (child_named msg ''body'')
                           in case find_delay msg of
                                None \<Rightarrow>
                                  (None, hook self ''receivedGroupChat''
                                           [VRoom a, opt_user u, VStr body] w)
                              | Some delay \<Rightarrow>
                                  (case getitem delay ''stamp'' of
                                     Inl e \<Rightarrow> (Some e, w)
                                   | Inr stamp \<Rightarrow>
                                       (None, hook self ''receivedHistory''
                                                [VRoom a, opt_user u, VStr body, VStr stamp,
                                                 opt_str (getAttribute delay ''from'')] w)))))))"

definition onSubject :: "nat \<Rightarrow> element \<Rightarrow> world \<Rightarrow> exn option \<times> world" where
  "onSubject self msg w =
     (if \<not> hasAttribute msg ''from'' then (None, w)
      else (case getitem msg ''from'' of
              Inl e \<Rightarrow> (Some e, w)
            | Inr frm \<Rightarrow>
                (case internJID frm of
                   Inl e \<Rightarrow> (Some e, w)
                 | Inr room_jid \<Rightarrow>
                     (case getRoom self room_jid w of
                        None \<Rightarrow> (None, w)
                      | Some a \<Rightarrow>
                          (None, hook self ''receivedSubject''
                                   [VJID room_jid, VStr (unicode (child_named msg ''subject''))]
                                   w)))))"

definition makeTimeStamp :: "nat \<Rightarrow> datetime option \<Rightarrow> world \<Rightarrow> string" where
  "makeTimeStamp self stamp w = strftime (case stamp of None \<Rightarrow> now w | Some t \<Rightarrow> t)"

subsection \<open>MUCClient: the one-time observers of pending requests\<close>

definition is_error :: "element \<Rightarrow> bool" where
  "is_error prs = (hasAttribute prs ''type'' \<and> getitem prs ''type'' = Inr ''error'')"

definition joinedRoom :: "nat \<Rightarrow> nat \<Rightarrow> element \<Rightarrow> world \<Rightarrow> exn option \<times> world" where
  "joinedRoom self d prs w =
     (case getitem prs ''from'' of
        Inl e \<Rightarrow> (Some e, w)
      | Inr frm \<Rightarrow>
          (case internJID frm of
             Inl e \<Rightarrow> (Some e, w)
           | Inr room_jid \<Rightarrow>
               if is_error prs then errback d (VElement prs) w
               else (case getRoom self room_jid w of
                       None \<Rightarrow> (Some (Exception ''Room Not Found''), w)
                     | Some a \<Rightarrow>
                         (let w1 = set_room a ((room_store w a)\<lparr>state := Some ''joined''\<rparr>) w;
                              w2 = (case getattr (child_named prs ''x'') ''status'' of
                                      None \<Rightarrow> w1
                                    | Some st \<Rightarrow>
                                        set_room a
                                          ((room_store w1 a)\<lparr>room_status :=
                                              (case getAttribute st ''code'' of
                                                 None \<Rightarrow> StatusNone
                                               | Some c \<Rightarrow> StatusStr c)\<rparr>) w1)
                          in callback d (VRoom a) w2))))"

definition leftRoom :: "nat \<Rightarrow> nat \<Rightarrow> element \<Rightarrow> world \<Rightarrow> exn option \<times> world" where
  "leftRoom self d prs w =
     (case getitem prs ''from'' of
        Inl e \<Rightarrow> (Some e, w)
      | Inr frm \<Rightarrow>
          (case internJID frm of
             Inl e \<Rightarrow> (Some e, w)
           | Inr room_jid \<Rightarrow>
               if is_error prs then errback d (VElement prs) w
               else (case getRoom self room_jid w of
                       None \<Rightarrow> (Some (Exception ''Room Not Found''), w)
                     | Some a \<Rightarrow> callback d (VBool True) (removeRoom self room_jid w))))"

definition changed :: "nat \<Rightarrow> nat \<Rightarrow> jid \<Rightarrow> element \<Rightarrow> world \<Rightarrow> exn option \<times> world" where
  "changed self d room_jid prs w =
     callback d (case getRoom self room_jid w of None \<Rightarrow> VNone | Some a \<Rightarrow> VRoom a) w"

subsection \<open>MUCClient: outbound operations\<close>

text \<open>
  \<^verbatim>\<open>sendDeferred\<close>: a new Deferred is appended to \<^verbatim>\<open>self._deferreds\<close>, its timeout is
  scheduled, \<^verbatim>\<open>cancelTimeout\<close> is added to it, and the stanza is sent.
\<close>

definition sendDeferred :: "nat \<Rightarrow> element \<Rightarrow> nat \<Rightarrow> world \<Rightarrow> nat \<times> world" where
  "sendDeferred self obj timeout w =
     (let d = deferred_count w;
          w1 = w\<lparr>deferred_count := deferred_count w + 1,
                 deferreds := deferreds w @ [d]\<rparr>;
          cw = callLater timeout d w1;
          w2 = (snd cw)\<lparr>deferred_store :=
                   (deferred_store (snd cw))(d := \<lparr>result = None, call = fst cw\<rparr>)\<rparr>
      in (d, send self obj w2))"

text \<open>
  \<^verbatim>\<open>join(server, room, nick)\<close>. The result is the exception raised or the deferred
  returned, with the state the call leaves behind.
\<close>

definition join :: "nat \<Rightarrow> string \<Rightarrow> string \<Rightarrow> string \<Rightarrow> world \<Rightarrow> (exn + nat) \<times> world" where
  "join self srv rm nk w =
     (case Room rm srv nk (Some ''joining'') of
        Inl e \<Rightarrow> (Inl e, w)
      | Inr r \<Rightarrow>
          (let aw = new_room r w;
               a = fst aw;
               w1 = setRoom self a (snd aw);
               p = BasicPresence (Some (entity_id (room_store w1 a)));
               dw = sendDeferred self p DEFER_TIMEOUT w1;
               d = fst dw
           in case addOnetimeObserver self
                     (PresenceFrom (full (entity_id (room_store (snd dw) a))))
                     (JoinedRoom d) 1 (snd dw) of
                (Some e, w2) \<Rightarrow> (Inl e, w2)
              | (None, w2) \<Rightarrow> (Inr d, w2)))"

text \<open>
  \<^verbatim>\<open>nick(room_jid, new_nick)\<close>; \<open>nick\<close> itself is the name of a field of User here, and so
  is \<open>status\<close> below.
\<close>

definition nick_op :: "nat \<Rightarrow> jid \<Rightarrow> string \<Rightarrow> world \<Rightarrow> (exn + nat) \<times> world" where
  "nick_op self room_jid new_nick w =
     (case getRoom self room_jid w of
        None \<Rightarrow> (Inl (Exception ''Room not found''), w)
      | Some a \<Rightarrow>
          (let w1 = set_room a ((room_store w a)\<lparr>room_nick := new_nick\<rparr>) w
           in case entityId (room_store w1 a) of
                Inl e \<Rightarrow> (Inl e, w1)
              | Inr (j, r') \<Rightarrow>
                  (let w2 = set_room a r' w1;
                       p = BasicPresence (Some j);
                       dw = sendDeferred self p DEFER_TIMEOUT w2;
                       d = fst dw
                   in case addOnetimeObserver self
                             (PresenceFrom (full (entity_id (room_store (snd dw) a))))
                             (Changed d room_jid) 1 (snd dw) of
                        (Some e, w3) \<Rightarrow> (Inl e, w3)
                      | (None, w3) \<Rightarrow> (Inr d, w3))))"

text \<open>
  \<^verbatim>\<open>leave(room_jid)\<close> reads \<^verbatim>\<open>r.entity_id\<close> from the result of the lookup without a test
  for \<open>None\<close>.
\<close>

definition leave :: "nat \<Rightarrow> jid \<Rightarrow> world \<Rightarrow> (exn + nat) \<times> world" where
  "leave self room_jid w =
     (case getRoom self room_jid w of
        None \<Rightarrow> (Inl (AttributeError ''entity_id''), w)
      | Some a \<Rightarrow>
          (let p = UnavailablePresence (Some (entity_id (room_store w a)));
               dw = sendDeferred self p DEFER_TIMEOUT w;
               d = fst dw
           in case addOnetimeObserver self
                     (PresenceFromType (full (entity_id (room_store (snd dw) a)))
                        ''unavailable'')
                     (LeftRoom d) 1 (snd dw) of
                (Some e, w1) \<Rightarrow> (Inl e, w1)
              | (None, w1) \<Rightarrow> (Inr d, w1)))"

text \<open>\<^verbatim>\<open>status(room_jid, show, status)\<close>.\<close>

definition status_op ::
  "nat \<Rightarrow> jid \<Rightarrow> string option \<Rightarrow> string option \<Rightarrow> world \<Rightarrow> (exn + nat) \<times> world" where
  "status_op self room_jid shw sts w =
     (case getRoom self room_jid w of
        None \<Rightarrow> (Inl (Exception ''Room not found''), w)
      | Some a \<Rightarrow>
          (case entityId (room_store w a) of
             Inl e \<Rightarrow> (Inl e, w)
           | Inr (j, r') \<Rightarrow>
               (let w1 = set_room a r' w;
                    p0 = BasicPresence (Some j);
                    p1 = (case sts of None \<Rightarrow> p0 | Some t \<Rightarrow> addElement p0 ''status'' None (Some t));
                    p2 = (case shw of None \<Rightarrow> p1 | Some t \<Rightarrow> addElement p1 ''show'' None (Some t));
                    dw = sendDeferred self p2 DEFER_TIMEOUT w1;
                    d = fst dw
                in case addOnetimeObserver self
                          (PresenceFrom (full (entity_id (room_store (snd dw) a))))
                          (Changed d room_jid) 1 (snd dw) of
                     (Some e, w2) \<Rightarrow> (Inl e, w2)
                   | (None, w2) \<Rightarrow> (Inr d, w2))))"

text \<open>
  \<^verbatim>\<open>history\<close>. The body of the loop treats an entry \<^verbatim>\<open>m\<close> as a stanza: it assigns and reads
  \<^verbatim>\<open>m['type']\<close> and \<^verbatim>\<open>m['to']\<close>, calls \<^verbatim>\<open>m.getAttribute\<close> and \<^verbatim>\<open>m.addElement\<close>. On a
  dictionary the item assignment and the item read work as on any dictionary and the method
  call is an AttributeError; other values do not support item assignment. The stamp of the
  delay child is \<^verbatim>\<open>self._makeTimeStamp()\<close>, called without an argument.
\<close>

definition history_entry :: "nat \<Rightarrow> string \<Rightarrow> pyval \<Rightarrow> world \<Rightarrow> exn option \<times> world" where
  "history_entry self to m w =
     (case m of
        VElement e \<Rightarrow>
          (let e1 = setitem e ''type'' ''groupchat''
           in case getitem e1 ''to'' of
                Inl ex \<Rightarrow> (Some ex, w)
              | Inr mto \<Rightarrow>
                  (let frm = getAttribute e1 ''from'';
                       e2 = setitem e1 ''to'' to;
                       d0 = new_element e2 ''delay'' (Some NS_DELAY) None;
                       d1 = setitem d0 ''stamp'' (makeTimeStamp self None w);
                       d2 = setitem d1 ''from'' mto
                   in (None, send self (addChild e2 d2) w)))
      | VDict kv \<Rightarrow>
          (case map_of (AList.update ''type'' (VStr ''groupchat'') kv) ''to'' of
             None \<Rightarrow> (Some (KeyError ''to''), w)
           | Some mto \<Rightarrow> (Some (AttributeError ''getAttribute''), w))
      | _ \<Rightarrow> (Some (TypeError ''item assignment''), w))"

fun history :: "nat \<Rightarrow> string \<Rightarrow> pyval list \<Rightarrow> world \<Rightarrow> exn option \<times> world" where
  "history self to [] w = (None, w)"
| "history self to (m # message_list) w =
     (case history_entry self to m w of
        (Some e, w') \<Rightarrow> (Some e, w')
      | (None, w') \<Rightarrow> history self to message_list w')"

subsection \<open>MUCClient: connection and dispatch\<close>

definition connection_observers :: "observer list" where
  "connection_observers =
     [\<lparr>pattern = PresenceAvailableX, handler = OnXPresence, onetime = False, priority = 0\<rparr>,
      \<lparr>pattern = PresenceType ''unavailable'', handler = OnUnavailablePresence,
        onetime = False, priority = 0\<rparr>,
      \<lparr>pattern = PresenceType ''error'', handler = OnPresenceError,
        onetime = False, priority = 0\<rparr>,
      \<lparr>pattern = MessageTypeChild ''groupchat'' ''body'', handler = OnGroupChat,
        onetime = False, priority = 0\<rparr>,
      \<lparr>pattern = MessageTypeChild ''groupchat'' ''subject'', handler = OnSubject,
        onetime = False, priority = 0\<rparr>]"

definition connectionInitialized :: "nat \<Rightarrow> world \<Rightarrow> world" where
  "connectionInitialized self w =
     hook self ''initialized'' []
       (foldl (\<lambda>w' ob. snd (add_observer self ob w')) w connection_observers)"

definition run_callback :: "nat \<Rightarrow> callback \<Rightarrow> element \<Rightarrow> world \<Rightarrow> exn option \<times> world" where
  "run_callback self cb obj w =
     (case cb of
        OnXPresence \<Rightarrow> onXPresence self obj w
      | OnUnavailablePresence \<Rightarrow> onUnavailablePresence self obj w
      | OnPresenceError \<Rightarrow> onPresenceError self obj w
      | OnGroupChat \<Rightarrow> onGroupChat self obj w
      | OnSubject \<Rightarrow> onSubject self obj w
      | JoinedRoom d \<Rightarrow> joinedRoom self d obj w
      | LeftRoom d \<Rightarrow> leftRoom self d obj w
      | Changed d room_jid \<Rightarrow> changed self d room_jid obj w)"

text \<open>
  An inbound stanza on the stream of a handler: the observers whose query matches are
  called, those of higher priority first; what a callback raises is logged; a one-time
  observer is removed once it has been called.
\<close>

definition notify :: "nat \<Rightarrow> element \<Rightarrow> world \<Rightarrow> observer \<Rightarrow> world" where
  "notify self obj w ob =
     (if matches (pattern ob) obj
      then (let w1 = log_exn (run_callback self (handler ob) obj w)
            in if onetime ob
               then w1\<lparr>xmlstreams := (xmlstreams w1)(self :=
                         (xmlstreams w1 self)\<lparr>observers :=
                            remove1 ob (observers (xmlstreams w1 self))\<rparr>)\<rparr>
               else w1)
      else w)"

definition dispatch :: "nat \<Rightarrow> element \<Rightarrow> world \<Rightarrow> world" where
  "dispatch self obj w =
     foldl (notify self obj) w
       (sort_key (\<lambda>ob. - int (priority ob)) (observers (xmlstreams w self)))"

subsection \<open>A starting state\<close>

text \<open>
  A process in which no room has been joined and nothing is pending, at wall-clock time
  \<open>t\<close>; the unused cells of the stores hold placeholders. \<open>connected hs t\<close> is that process
  after the handlers \<open>hs\<close> have been connected.
\<close>

definition no_jid :: jid where
  "no_jid = \<lparr>user = None, host = [], resource = None\<rparr>"

definition no_room :: room where
  "no_room = \<lparr>state = None, name = [], server = [], room_nick = [],
              room_status = StatusInt 0, entity_id = no_jid, roster = []\<rparr>"

definition start :: "datetime \<Rightarrow> world" where
  "start t =
     \<lparr>rooms = [], deferreds = [], room_store = (\<lambda>a. no_room), room_count = 0,
      deferred_store = (\<lambda>d. \<lparr>result = None, call = 0\<rparr>), deferred_count = 0,
      xmlstreams = (\<lambda>h. \<lparr>observers = [], output = []\<rparr>),
      calls = (\<lambda>c. \<lparr>dc_time = 0, dc_deferred = 0, dc_cancelled = True, dc_called = True\<rparr>),
      call_count = 0, seconds = 0, now = t, hooks = [], logged = []\<rparr>"

definition connected :: "nat list \<Rightarrow> datetime \<Rightarrow> world" where
  "connected hs t = foldl (\<lambda>w h. connectionInitialized h w) (start t) hs"

subsection \<open>The fixtures of the test suite\<close>

text \<open>
  The values \<^verbatim>\<open>MUCClientTest.setUp\<close> builds: the room \<^verbatim>\<open>test\<close> at the service
  \<^verbatim>\<open>conference.example.org\<close>, joined as \<^verbatim>\<open>Nick\<close>, and the JIDs derived from them.
\<close>

definition roomIdentifier :: string where
  "roomIdentifier = ''test''"

definition service :: string where
  "service = ''conference.example.org''"

definition test_nick :: string where
  "test_nick = ''Nick''"

definition occupantJID :: jid where
  "occupantJID = \<lparr>user = Some roomIdentifier, host = service, resource = Some test_nick\<rparr>"

definition roomJID :: jid where
  "roomJID = \<lparr>user = Some roomIdentifier, host = service, resource = None\<rparr>"

definition userJID :: jid where
  "userJID = \<lparr>user = Some ''test'', host = ''example.org'', resource = Some ''Testing''\<rparr>"

definition test_time :: datetime where
  "test_time = \<lparr>year = 2008, month = 11, day = 5, hour = 17, minute = 30, second = 9\<rparr>"

text \<open>\<^verbatim>\<open>Room(self.roomIdentifier, self.service, self.nick)\<close>, as \<^verbatim>\<open>_createRoom\<close> builds it.\<close>

definition test_room :: room where
  "test_room = \<lparr>state = None, name = roomIdentifier, server = service, room_nick = test_nick,
                room_status = StatusInt 0, entity_id = occupantJID, roster = []\<rparr>"

text \<open>
  \<^verbatim>\<open>_createRoom\<close> of the test suite registers the room of the fixtures on a handler, and
  several tests then add the occupant \<^verbatim>\<open>Nick\<close> to its roster.
\<close>

definition createRoom :: "nat \<Rightarrow> world \<Rightarrow> world" where
  "createRoom self w = (let aw = new_room test_room w in setRoom self (fst aw) (snd aw))"

definition add_occupant :: "nat \<Rightarrow> user \<Rightarrow> world \<Rightarrow> world" where
  "add_occupant a u w =
     (case addUser (room_store w a) u of Inl e \<Rightarrow> w | Inr r' \<Rightarrow> set_room a r' w)"

text \<open>The stanzas the tests deliver.\<close>

definition subject_message :: element where
  "subject_message =
     Element ''message'' None
       [(''to'', ''test@example.org/Testing''),
        (''from'', ''test@conference.example.org/Nick''), (''type'', ''groupchat'')]
       [Child (Element ''subject'' None [] [CData ''test''])]"

definition room_message :: element where
  "room_message =
     Element ''message'' None
       [(''to'', ''test@test.com''), (''from'', ''test@conference.example.org''),
        (''type'', ''groupchat'')]
       [Child (Element ''body'' None [] [CData ''test''])]"

definition forbidden_presence :: "string \<Rightarrow> element" where
  "forbidden_presence frm =
     Element ''presence'' None [(''from'', frm), (''type'', ''error'')]
       [Child (Element ''error'' None [(''type'', ''auth'')]
          [Child (Element ''forbidden'' (Some ''urn:ietf:params:xml:ns:xmpp-stanzas'') [] [])])]"

text \<open>
  The archive of \<^verbatim>\<open>test_oneToOneChat\<close>: two one-to-one messages, each in a dictionary with
  the time it was sent at.
\<close>

definition thread :: string where
  "thread = ''e0ffe42b28561960c6b12b944a092794b9683a38''"

definition archived_message :: "string \<Rightarrow> string \<Rightarrow> element" where
  "archived_message to body =
     Element ''message'' None [(''to'', to), (''type'', ''chat'')]
       [Child (Element ''body'' None [] [CData body]),
        Child (Element ''thread'' None [] [CData thread])]"

definition archive :: "pyval list" where
  "archive =
     [VDict [(''stanza'', VElement (archived_message ''testing@example.com'' ''test'')),
             (''timestamp'',
              VDatetime \<lparr>year = 2002, month = 10, day = 13, hour = 23, minute = 58,
                          second = 37\<rparr>)],
      VDict [(''stanza'', VElement (archived_message ''testing2@example.com'' ''yo'')),
             (''timestamp'',
              VDatetime \<lparr>year = 2002, month = 10, day = 13, hour = 23, minute = 58,
                          second = 43\<rparr>)]]"


text \<open>Two handler instances, 0 and 1, connected in one process.\<close>

definition two_sessions :: world where
  "two_sessions = connected [0, 1] test_time"

subsection \<open>Predicates on identifiers and states\<close>

text \<open>
  A JID as \<^verbatim>\<open>internJID\<close> returns it: a node, if any, is not empty, has no \<^verbatim>\<open>@\<close> and no
  \<^verbatim>\<open>/\<close> and is case-folded; the domain is not empty, has neither character and is
  case-folded; a resource, if any, is not empty.
\<close>

definition valid_jid :: "jid \<Rightarrow> bool" where
  "valid_jid j \<longleftrightarrow>
     (case user j of None \<Rightarrow> True
      | Some x \<Rightarrow> x \<noteq> [] \<and> CHR ''@'' \<notin> set x \<and> CHR ''/'' \<notin> set x \<and> lower x = x)
     \<and> host j \<noteq> [] \<and> CHR ''@'' \<notin> set (host j) \<and> CHR ''/'' \<notin> set (host j)
     \<and> lower (host j) = host j
     \<and> (case resource j of None \<Rightarrow> True | Some y \<Rightarrow> y \<noteq> [])"

text \<open>
  What the persistent observers of a handler leave alone: they change rosters and call
  hooks, and nothing else.
\<close>

definition frame :: "world \<Rightarrow> world \<Rightarrow> bool" where
  "frame w w' \<longleftrightarrow>
     rooms w' = rooms w \<and> deferreds w' = deferreds w
     \<and> deferred_store w' = deferred_store w \<and> calls w' = calls w
     \<and> call_count w' = call_count w \<and> seconds w' = seconds w
     \<and> xmlstreams w' = xmlstreams w
     \<and> (\<forall>a. state (room_store w' a) = state (room_store w a)
              \<and> room_status (room_store w' a) = room_status (room_store w a)
              \<and> entity_id (room_store w' a) = entity_id (room_store w a))"

text \<open>
  The references of a state are to objects that exist: the list of pending deferreds, the
  delayed calls and the deferreds name only deferreds and calls that have been made.
\<close>

definition allocated :: "world \<Rightarrow> bool" where
  "allocated w \<longleftrightarrow>
     (\<forall>d\<in>set (deferreds w). d < deferred_count w)
     \<and> (\<forall>c\<in>{0..<call_count w}. dc_deferred (calls w c) < deferred_count w)
     \<and> (\<forall>d\<in>{0..<deferred_count w}. call (deferred_store w d) < call_count w)"

text \<open>A sequence of inbound stanzas on the stream of one handler.\<close>

definition deliver :: "nat \<Rightarrow> element list \<Rightarrow> world \<Rightarrow> world" where
  "deliver self stanzas w = foldl (\<lambda>w' s. dispatch self s w') w stanzas"

text \<open>
  What the timeout of the deferred \<open>x\<close> can change: the result of \<open>x\<close>, the flags of the
  delayed call of \<open>x\<close>, and the occurrences of \<open>x\<close> in the pending list.
\<close>

definition touch :: "nat \<Rightarrow> world \<Rightarrow> world \<Rightarrow> bool" where
  "touch x w w' \<longleftrightarrow>
     (\<forall>y. y \<noteq> x \<longrightarrow> deferred_store w' y = deferred_store w y)
     \<and> (\<forall>y. call (deferred_store w' y) = call (deferred_store w y))
     \<and> (\<forall>c. c \<noteq> call (deferred_store w x) \<longrightarrow> calls w' c = calls w c)
     \<and> (\<forall>c. dc_deferred (calls w' c) = dc_deferred (calls w c))
     \<and> filter (\<lambda>y. y \<noteq> x) (deferreds w') = filter (\<lambda>y. y \<noteq> x) (deferreds w)
     \<and> seconds w' = seconds w"

text \<open>
  The deferred \<open>d\<close> waits for its delayed call \<open>c0\<close>, due at \<open>T\<close>; and \<open>d\<close> after the
  call has run. Older calls and deferreds do not refer to \<open>d\<close> and \<open>c0\<close>.
\<close>

definition pending :: "nat \<Rightarrow> nat \<Rightarrow> nat \<Rightarrow> world \<Rightarrow> bool" where
  "pending d c0 T w \<longleftrightarrow>
     deferred_store w d = \<lparr>result = None, call = c0\<rparr>
     \<and> filter (\<lambda>y. y = d) (deferreds w) = [d]
     \<and> calls w c0 = \<lparr>dc_time = T, dc_deferred = d, dc_cancelled = False, dc_called = False\<rparr>
     \<and> (\<forall>c<c0. dc_deferred (calls w c) < d)
     \<and> (\<forall>x<d. call (deferred_store w x) < c0)"

definition timed_out :: "nat \<Rightarrow> nat \<Rightarrow> world \<Rightarrow> bool" where
  "timed_out d c0 w \<longleftrightarrow>
     result (deferred_store w d)
       = Some (Failure (VExc (TimeoutError ''Timeout waiting for response.'')))
     \<and> d \<notin> set (deferreds w)
     \<and> (\<forall>c<c0. dc_deferred (calls w c) < d)
     \<and> (\<forall>x<d. call (deferred_store w x) < c0)"

section \<open>Properties\<close>

lemmas string_defs = lower_def lower_char_def or_None_def truthy_def

lemmas jid_defs = internJID_def parse_def prep_def userhost_def full_def

lemmas fixture_defs = roomIdentifier_def service_def test_nick_def occupantJID_def
  roomJID_def userJID_def test_time_def test_room_def

lemmas world_defs = connected_def connectionInitialized_def hook_def start_def
  add_observer_def connection_observers_def well_quoted_def literals_def
  new_room_def setRoom_def set_room_def send_def createRoom_def add_occupant_def

lemmas element_defs = hasAttribute_def getAttribute_def getAttribute_or_def getitem_def
  child_named_def getattr_def unicode_def

lemmas dispatch_defs = dispatch_def notify_def run_callback_def matches_def log_exn_def

subsection \<open>Jabber identifiers\<close>

lemma find_char_None: "find_char c s = None \<longleftrightarrow> c \<notin> set s"
  by (induction s) auto

lemma find_char_Some:
  "find_char c s = Some i \<Longrightarrow> i < length s \<and> s ! i = c \<and> c \<notin> set (take i s)"
  by (induction s arbitrary: i) (auto split: if_splits)

lemma find_char_append:
  "c \<notin> set a \<Longrightarrow>
   find_char c (a @ b) = (case find_char c b of None \<Rightarrow> None | Some i \<Rightarrow> Some (length a + i))"
  by (induction a) (auto split: option.splits)

lemma lower_char_idem: "lower_char (lower_char c) = lower_char c"
  by (auto simp: lower_char_def split: option.splits if_splits)

lemma lower_idem: "lower (lower s) = lower s"
  by (simp add: lower_def lower_char_idem)

lemma lower_char_at: "lower_char c = CHR ''@'' \<longleftrightarrow> c = CHR ''@''"
  by (auto simp: lower_char_def split: option.splits if_splits)

lemma lower_char_slash: "lower_char c = CHR ''/'' \<longleftrightarrow> c = CHR ''/''"
  by (auto simp: lower_char_def split: option.splits if_splits)

lemma lower_at: "CHR ''@'' \<in> set (lower s) \<longleftrightarrow> CHR ''@'' \<in> set s"
  by (induction s) (simp_all add: lower_def lower_char_at eq_commute[of "CHR ''@''"])

lemma lower_slash: "CHR ''/'' \<in> set (lower s) \<longleftrightarrow> CHR ''/'' \<in> set s"
  by (induction s) (simp_all add: lower_def lower_char_slash eq_commute[of "CHR ''/''"])

lemma lower_Nil: "lower s = [] \<longleftrightarrow> s = []"
  by (simp add: lower_def)

lemma parse_full:
  assumes "valid_jid j"
  shows "parse (full j) = (user j, host j, resource j)"
proof (cases "user j")
  case None
  note u = this
  show ?thesis
  proof (cases "resource j")
    case None
    with u assms have h: "CHR ''@'' \<notin> set (host j)" "CHR ''/'' \<notin> set (host j)"
      by (auto simp: valid_jid_def)
    have f: "full j = host j"
      using u None by (simp add: full_def truthy_def)
    have "find_char (CHR ''@'') (host j) = None" "find_char (CHR ''/'') (host j) = None"
      using h by (simp_all add: find_char_None)
    then show ?thesis
      using u None by (simp add: parse_def f)
  next
    case (Some y)
    with u assms have y: "y \<noteq> []" and h: "CHR ''@'' \<notin> set (host j)" "CHR ''/'' \<notin> set (host j)"
      by (auto simp: valid_jid_def)
    have f: "full j = host j @ CHR ''/'' # y"
      using u Some y by (simp add: full_def truthy_def)
    have s: "find_char (CHR ''/'') (full j) = Some (length (host j))"
      by (simp add: f find_char_append h)
    have a: "find_char (CHR ''@'') (full j) = None \<or>
             (\<exists>i. find_char (CHR ''@'') (full j) = Some i \<and> length (host j) \<le> i)"
      by (auto simp: f find_char_append h split: option.splits)
    show ?thesis
      using a s u Some y by (auto simp: parse_def or_None_def f)
  qed
next
  case (Some x)
  note u = this
  with assms have x: "x \<noteq> []" "CHR ''@'' \<notin> set x" "CHR ''/'' \<notin> set x"
    and h: "CHR ''@'' \<notin> set (host j)" "CHR ''/'' \<notin> set (host j)"
    by (auto simp: valid_jid_def)
  show ?thesis
  proof (cases "resource j")
    case None
    have f: "full j = x @ CHR ''@'' # host j"
      using u None x by (simp add: full_def truthy_def)
    have "find_char (CHR ''@'') (full j) = Some (length x)"
      by (simp add: f find_char_append x)
    moreover have "find_char (CHR ''/'') (full j) = None"
      by (simp add: f find_char_None x h)
    ultimately show ?thesis
      using u None x by (simp add: parse_def or_None_def f)
  next
    case (Some y)
    with assms have y: "y \<noteq> []"
      by (auto simp: valid_jid_def)
    have f: "full j = x @ CHR ''@'' # host j @ CHR ''/'' # y"
      using u Some x y by (simp add: full_def truthy_def)
    have "find_char (CHR ''@'') (full j) = Some (length x)"
      by (simp add: f find_char_append x)
    moreover have "find_char (CHR ''/'') (full j) = Some (length x + 1 + length (host j))"
      using find_char_append[of "CHR ''/''" "x @ CHR ''@'' # host j" "CHR ''/'' # y"] x h
      by (simp add: f)
    ultimately show ?thesis
      using u Some x y by (simp add: parse_def or_None_def f)
  qed
qed

lemma internJID_full:
  assumes "valid_jid j"
  shows "internJID (full j) = Inr j"
  using assms
  by (auto simp: internJID_def parse_full prep_def valid_jid_def split: option.splits)

lemma or_None_Some: "or_None s = Some x \<Longrightarrow> x = s \<and> s \<noteq> []"
  by (auto simp: or_None_def split: if_splits)

lemma notin_take: "find_char c s = Some i \<Longrightarrow> k \<le> i \<Longrightarrow> c \<notin> set (take k s)"
proof -
  assume a: "find_char c s = Some i" and k: "k \<le> i"
  have "set (take k s) \<subseteq> set (take i s)"
    using k by (rule set_take_subset_set_take)
  then show ?thesis
    using find_char_Some[OF a] by blast
qed

lemma parse_valid:
  assumes "parse s = (u, h, r)"
  shows "(\<forall>x. u = Some x \<longrightarrow> x \<noteq> [] \<and> CHR ''@'' \<notin> set x \<and> CHR ''/'' \<notin> set x)
         \<and> CHR ''/'' \<notin> set h \<and> (\<forall>y. r = Some y \<longrightarrow> y \<noteq> [])"
proof (cases "find_char (CHR ''@'') s")
  case None
  note a = this
  show ?thesis
  proof (cases "find_char (CHR ''/'') s")
    case None
    have "parse s = (None, s, None)"
      by (simp add: parse_def a None)
    with assms have "u = None" "h = s" "r = None"
      by simp_all
    then show ?thesis
      using None by (simp add: find_char_None)
  next
    case (Some rs)
    have "parse s = (None, take rs s, or_None (drop (rs + 1) s))"
      by (simp add: parse_def a Some)
    with assms have "u = None" "h = take rs s" "r = or_None (drop (rs + 1) s)"
      by simp_all
    then show ?thesis
      using notin_take[OF Some, of rs] by (auto dest: or_None_Some)
  qed
next
  case (Some us)
  note a = this
  show ?thesis
  proof (cases "find_char (CHR ''/'') s")
    case None
    then have n: "CHR ''/'' \<notin> set s"
      by (simp add: find_char_None)
    have t: "CHR ''/'' \<notin> set (take us s)" "CHR ''/'' \<notin> set (drop (us + 1) s)"
      using n by (auto dest: in_set_takeD in_set_dropD)
    have "parse s = (or_None (take us s), drop (us + 1) s, None)"
      by (simp add: parse_def a None)
    with assms have "u = or_None (take us s)" "h = drop (us + 1) s" "r = None"
      by simp_all
    then show ?thesis
      using t notin_take[OF a, of us] by (auto dest!: or_None_Some)
  next
    case (Some rs)
    show ?thesis
    proof (cases "us < rs")
      case True
      have 1: "CHR ''/'' \<notin> set (take rs s)"
        using notin_take[OF Some, of rs] by simp
      have "set (take (rs - (us + 1)) (drop (us + 1) s)) \<subseteq> set (take rs s)"
        by (metis drop_take set_drop_subset)
      with 1 have 2: "CHR ''/'' \<notin> set (take (rs - (us + 1)) (drop (us + 1) s))"
        by blast
      have 3: "CHR ''/'' \<notin> set (take us s)"
        using notin_take[OF Some, of us] True by simp
      have "parse s = (or_None (take us s), take (rs - (us + 1)) (drop (us + 1) s),
                       or_None (drop (rs + 1) s))"
        using True by (simp add: parse_def a Some)
      with assms have "u = or_None (take us s)" "h = take (rs - (us + 1)) (drop (us + 1) s)"
        "r = or_None (drop (rs + 1) s)"
        by simp_all
      then show ?thesis
        using 2 3 notin_take[OF a, of us] by (auto dest!: or_None_Some)
    next
      case False
      have "parse s = (None, take rs s, or_None (drop (rs + 1) s))"
        using False by (simp add: parse_def a Some)
      with assms have "u = None" "h = take rs s" "r = or_None (drop (rs + 1) s)"
        by simp_all
      then show ?thesis
        using notin_take[OF Some, of rs] by (auto dest: or_None_Some)
    qed
  qed
qed

lemma internJID_valid:
  assumes "internJID s = Inr j"
  shows "valid_jid j"
proof -
  obtain u h r where p: "parse s = (u, h, r)"
    by (cases "parse s") auto
  from assms p have h: "h \<noteq> []" "CHR ''@'' \<notin> set h"
    and j: "j = \<lparr>user = map_option lower u, host = lower h, resource = r\<rparr>"
    by (auto simp: internJID_def prep_def split: if_splits)
  from parse_valid[OF p] show ?thesis
    by (cases u; cases r)
      (auto simp: j valid_jid_def lower_at lower_slash lower_Nil lower_idem h)
qed

subsection \<open>The roster\<close>












subsection \<open>Operations on a room that is not registered\<close>

text \<open>
  C6. When the bare JID of \<open>room_jid\<close> is not a key of the registry, \<^verbatim>\<open>nick\<close> and \<^verbatim>\<open>status\<close>
  raise at once the exception with the message \<^verbatim>\<open>Room not found\<close>, and they leave the whole
  state as it was: nothing is sent on the stream, no deferred is made and nothing is
  scheduled.
\<close>

theorem nick_status_room_not_found:
  assumes "getRoom self room_jid w = None"
  shows "nick_op self room_jid new_nick w = (Inl (Exception ''Room not found''), w)
         \<and> status_op self room_jid shw sts w = (Inl (Exception ''Room not found''), w)
         \<and> output (xmlstreams (snd (nick_op self room_jid new_nick w)) self)
             = output (xmlstreams w self)
         \<and> output (xmlstreams (snd (status_op self room_jid shw sts w)) self)
             = output (xmlstreams w self)"
  using assms by (simp add: nick_op_def status_op_def)

theorem nick_status_room_not_found_witness:
  "getRoom 0 userJID (createRoom 0 (connected [0] test_time)) = None
   \<and> getRoom 0 roomJID (createRoom 0 (connected [0] test_time)) = Some 0
   \<and> nick_op 0 userJID ''newNick'' (createRoom 0 (connected [0] test_time))
       = (Inl (Exception ''Room not found''), createRoom 0 (connected [0] test_time))
   \<and> status_op 0 userJID (Some ''xa'') (Some ''testing MUC'')
         (createRoom 0 (connected [0] test_time))
       = (Inl (Exception ''Room not found''), createRoom 0 (connected [0] test_time))"
proof -
  have h: "getRoom 0 userJID (createRoom 0 (connected [0] test_time)) = None"
    by (simp add: getRoom_def world_defs fixture_defs jid_defs string_defs)
  have r: "getRoom 0 roomJID (createRoom 0 (connected [0] test_time)) = Some 0"
    by (simp add: getRoom_def world_defs fixture_defs jid_defs string_defs)
  show ?thesis
    using h r
      nick_status_room_not_found[OF h, of "''newNick''" "Some ''xa''" "Some ''testing MUC''"]
    by simp
qed

text \<open>
  C10. \<^verbatim>\<open>leave\<close> on a bare JID that is not a key of the registry raises an AttributeError
  (the lookup gave \<open>None\<close>, and the method reads \<^verbatim>\<open>entity_id\<close> from it): the caller gets
  the exception and no deferred, and the state is as it was.
\<close>

theorem leave_unknown_room_raises:
  assumes "getRoom self room_jid w = None"
  shows "leave self room_jid w = (Inl (AttributeError ''entity_id''), w)"
  using assms by (simp add: leave_def)

theorem leave_unknown_room_raises_witness:
  "getRoom 0 userJID (createRoom 0 (connected [0] test_time)) = None
   \<and> getRoom 0 roomJID (createRoom 0 (connected [0] test_time)) = Some 0
   \<and> leave 0 userJID (createRoom 0 (connected [0] test_time))
       = (Inl (AttributeError ''entity_id''), createRoom 0 (connected [0] test_time))"
proof -
  have h: "getRoom 0 userJID (createRoom 0 (connected [0] test_time)) = None"
    by (simp add: getRoom_def world_defs fixture_defs jid_defs string_defs)
  have r: "getRoom 0 roomJID (createRoom 0 (connected [0] test_time)) = Some 0"
    by (simp add: getRoom_def world_defs fixture_defs jid_defs string_defs)
  show ?thesis
    using h r leave_unknown_room_raises[OF h] by simp
qed

subsection \<open>Inbound messages\<close>

text \<open>
  C5. What the code does with a groupchat message from a bare room JID. When the sender
  of the message parses to a JID without a resource and the room is registered, the lookup
  of the occupant calls \<^verbatim>\<open>lower\<close> on \<open>None\<close>: \<^verbatim>\<open>_onGroupChat\<close> raises an AttributeError, and
  it has called no hook and changed nothing by then.
\<close>

theorem groupchat_from_bare_room_jid_raises:
  assumes "getAttribute msg ''from'' = Some frm" and "internJID frm = Inr room_jid"
    and "resource room_jid = None" and "getRoom self room_jid w = Some a"
  shows "onGroupChat self msg w = (Some (AttributeError ''lower''), w)"
  using assms
  by (simp add: onGroupChat_def hasAttribute_def getAttribute_def getAttribute_or_def
      getUser_def nick_lower_def)

theorem groupchat_from_bare_room_jid_raises_witness:
  "getAttribute room_message ''from'' = Some ''test@conference.example.org''
   \<and> internJID ''test@conference.example.org'' = Inr roomJID
   \<and> resource roomJID = None
   \<and> getRoom 0 roomJID (createRoom 0 (connected [0] test_time)) = Some 0
   \<and> onGroupChat 0 room_message (createRoom 0 (connected [0] test_time))
       = (Some (AttributeError ''lower''), createRoom 0 (connected [0] test_time))
   \<and> hooks (dispatch 0 room_message (createRoom 0 (connected [0] test_time)))
       = [(0, ''initialized'', [])]
   \<and> logged (dispatch 0 room_message (createRoom 0 (connected [0] test_time)))
       = [AttributeError ''lower'']"
proof -
  let ?w = "createRoom 0 (connected [0] test_time)"
  have h1: "getAttribute room_message ''from'' = Some ''test@conference.example.org''"
    by (simp add: getAttribute_def room_message_def)
  have h2: "internJID ''test@conference.example.org'' = Inr roomJID"
    by (simp add: fixture_defs jid_defs string_defs)
  have h3: "resource roomJID = None"
    by (simp add: roomJID_def)
  have h4: "getRoom 0 roomJID ?w = Some 0"
    by (simp add: getRoom_def world_defs fixture_defs jid_defs string_defs)
  have obs: "observers (xmlstreams ?w 0) = connection_observers"
    by (simp add: world_defs)
  have m: "el_name room_message = ''message''"
    "getAttribute room_message ''type'' = Some ''groupchat''"
    "child_named room_message ''body'' \<noteq> None"
    "child_named room_message ''subject'' = None"
    by (simp_all add: room_message_def element_defs)
  have r: "onGroupChat 0 room_message ?w = (Some (AttributeError ''lower''), ?w)"
    using groupchat_from_bare_room_jid_raises[OF h1 h2 h3 h4] .
  have d: "dispatch 0 room_message ?w = ?w\<lparr>logged := logged ?w @ [AttributeError ''lower'']\<rparr>"
    by (simp add: dispatch_defs obs connection_observers_def m r)
  have "hooks ?w = [(0, ''initialized'', [])]" "logged ?w = []"
    by (simp_all add: world_defs)
  with h1 h2 h3 h4 r d show ?thesis
    by simp
qed

text \<open>
  C2. What the code passes to the \<^verbatim>\<open>receivedSubject\<close> hook. For a message with a sender
  that parses to \<open>room_jid\<close> and whose bare JID is registered, \<^verbatim>\<open>_onSubject\<close> calls the hook
  once, with two arguments: the parsed JID of the sender (not the Room that was looked up)
  and the text of the subject. No occupant is looked up or passed.
\<close>

theorem subject_hook_gets_sender_jid_and_text:
  assumes "getAttribute msg ''from'' = Some frm" and "internJID frm = Inr room_jid"
    and "getRoom self room_jid w = Some a"
  shows "onSubject self msg w
         = (None, hook self ''receivedSubject''
                    [VJID room_jid, VStr (unicode (child_named msg ''subject''))] w)"
  using assms
  by (simp add: onSubject_def hasAttribute_def getAttribute_def getitem_def)

theorem subject_hook_gets_sender_jid_and_text_witness:
  "getAttribute subject_message ''from'' = Some ''test@conference.example.org/Nick''
   \<and> internJID ''test@conference.example.org/Nick'' = Inr occupantJID
   \<and> getRoom 0 occupantJID
        (add_occupant 0 (User (Some test_nick)) (createRoom 0 (connected [0] test_time))) = Some 0
   \<and> hooks (snd (onSubject 0 subject_message
        (add_occupant 0 (User (Some test_nick)) (createRoom 0 (connected [0] test_time)))))
       = [(0, ''initialized'', []), (0, ''receivedSubject'', [VJID occupantJID, VStr ''test''])]"
proof -
  let ?w = "add_occupant 0 (User (Some test_nick)) (createRoom 0 (connected [0] test_time))"
  have h1: "getAttribute subject_message ''from'' = Some ''test@conference.example.org/Nick''"
    by (simp add: getAttribute_def subject_message_def)
  have h2: "internJID ''test@conference.example.org/Nick'' = Inr occupantJID"
    by (simp add: fixture_defs jid_defs string_defs)
  have h3: "getRoom 0 occupantJID ?w = Some 0"
    by (simp add: getRoom_def world_defs fixture_defs jid_defs string_defs
        addUser_def nick_lower_def User_def)
  have t: "unicode (child_named subject_message ''subject'') = ''test''"
    by (simp add: subject_message_def element_defs)
  have k: "hooks ?w = [(0, ''initialized'', [])]"
    by (simp add: world_defs addUser_def nick_lower_def User_def fixture_defs)
  show ?thesis
    using h1 h2 h3 subject_hook_gets_sender_jid_and_text[OF h1 h2 h3]
    by (simp add: t k hook_def)
qed

subsection \<open>Replaying an archive\<close>

lemma history_entry_stanza:
  assumes "getAttribute e ''to'' = Some mto"
  shows "history_entry self to (VElement e) w
         = (None, send self
                    (addChild (setitem (setitem e ''type'' ''groupchat'') ''to'' to)
                       (Element ''delay'' (Some NS_DELAY)
                          [(''stamp'', strftime (now w)), (''from'', mto)] []))
                    w)"
  using assms
  by (simp add: history_entry_def getitem_def getAttribute_def setitem_def update_conv'
      new_element_def makeTimeStamp_def Let_def)

lemma now_send: "now (send self obj w) = now w"
  by (simp add: send_def)

lemma output_send:
  "output (xmlstreams (send self obj w) self) = output (xmlstreams w self) @ [obj]"
  by (simp add: send_def)

text \<open>
  C4. What the code stamps a replayed message with. \<^verbatim>\<open>history\<close> takes a list of stanzas,
  each with a recipient. Every one of them is sent again as a groupchat message to \<open>to\<close>,
  with a delay child whose \<^verbatim>\<open>from\<close> is the recipient it had and whose \<^verbatim>\<open>stamp\<close> is the
  wall-clock time of the call, \<open>now w\<close>, in the form CCYYMMDDThh:mm:ss: the same stamp for
  every message, and no time that comes with the entry.
\<close>

theorem history_stamps_with_wall_clock:
  assumes "\<forall>e\<in>set es. hasAttribute e ''to''"
  shows "\<exists>w'. history self to (map VElement es) w = (None, w')
              \<and> now w' = now w
              \<and> output (xmlstreams w' self)
                  = output (xmlstreams w self)
                    @ map (\<lambda>e. addChild (setitem (setitem e ''type'' ''groupchat'') ''to'' to)
                                   (Element ''delay'' (Some NS_DELAY)
                                      [(''stamp'', strftime (now w)),
                                       (''from'', getAttribute_or e ''to'' [])] [])) es"
  using assms
proof (induction es arbitrary: w)
  case Nil
  then show ?case by simp
next
  case (Cons e es)
  from Cons.prems obtain mto where mto: "getAttribute e ''to'' = Some mto"
    by (auto simp: hasAttribute_def getAttribute_def)
  then have g: "getAttribute_or e ''to'' [] = mto"
    by (simp add: getAttribute_def getAttribute_or_def)
  let ?m = "addChild (setitem (setitem e ''type'' ''groupchat'') ''to'' to)
              (Element ''delay'' (Some NS_DELAY)
                 [(''stamp'', strftime (now w)), (''from'', mto)] [])"
  from Cons.prems have "\<forall>e\<in>set es. hasAttribute e ''to''"
    by simp
  from Cons.IH[OF this, of "send self ?m w"] obtain w' where
    w': "history self to (map VElement es) (send self ?m w) = (None, w')"
    "now w' = now w"
    "output (xmlstreams w' self)
       = (output (xmlstreams w self) @ [?m])
         @ map (\<lambda>e. addChild (setitem (setitem e ''type'' ''groupchat'') ''to'' to)
                        (Element ''delay'' (Some NS_DELAY)
                           [(''stamp'', strftime (now w)),
                            (''from'', getAttribute_or e ''to'' [])] [])) es"
    by (auto simp: now_send output_send)
  show ?case
    using w' by (simp add: history_entry_stanza[OF mto] g)
qed

theorem history_stamps_with_wall_clock_witness:
  "list_all (\<lambda>e. hasAttribute e ''to'')
     [archived_message ''testing@example.com'' ''test'',
      archived_message ''testing2@example.com'' ''yo'']
   \<and> strftime (now (connected [0] test_time)) = ''20081105T17:30:09''
   \<and> (\<exists>w'. history 0 ''test@conference.example.org''
               (map VElement [archived_message ''testing@example.com'' ''test'',
                              archived_message ''testing2@example.com'' ''yo''])
               (connected [0] test_time) = (None, w')
           \<and> map (\<lambda>m. map (\<lambda>d. getAttribute d ''stamp'') (elements (children m)))
                 (output (xmlstreams w' 0))
               = [[None, None, Some ''20081105T17:30:09''],
                  [None, None, Some ''20081105T17:30:09'']])
   \<and> history 0 ''test@conference.example.org'' archive (connected [0] test_time)
       = (Some (KeyError ''to''), connected [0] test_time)"
proof -
  let ?es = "[archived_message ''testing@example.com'' ''test'',
              archived_message ''testing2@example.com'' ''yo'']"
  have h: "\<forall>e\<in>set ?es. hasAttribute e ''to''"
    by (simp add: archived_message_def hasAttribute_def)
  have n: "now (connected [0] test_time) = test_time"
    by (simp add: world_defs)
  have t: "strftime test_time = ''20081105T17:30:09''"
    by (simp add: strftime_def pad2_def pad4_def digit_def test_time_def)
  have o: "output (xmlstreams (connected [0] test_time) 0) = []"
    by (simp add: world_defs)
  have k: "history 0 ''test@conference.example.org'' archive (connected [0] test_time)
           = (Some (KeyError ''to''), connected [0] test_time)"
    by (simp add: archive_def history_entry_def)
  from history_stamps_with_wall_clock[OF h, of 0 "''test@conference.example.org''"
      "connected [0] test_time"]
  obtain w' where w': "history 0 ''test@conference.example.org'' (map VElement ?es)
          (connected [0] test_time) = (None, w')"
    and out: "output (xmlstreams w' 0)
       = map (\<lambda>e. addChild (setitem (setitem e ''type'' ''groupchat'') ''to''
                               ''test@conference.example.org'')
                      (Element ''delay'' (Some NS_DELAY)
                         [(''stamp'', ''20081105T17:30:09''),
                          (''from'', getAttribute_or e ''to'' [])] [])) ?es"
    unfolding n t o by auto
  have "map (\<lambda>m. map (\<lambda>d. getAttribute d ''stamp'') (elements (children m)))
           (output (xmlstreams w' 0))
        = [[None, None, Some ''20081105T17:30:09''], [None, None, Some ''20081105T17:30:09'']]"
    by (simp add: out archived_message_def addChild_def setitem_def getAttribute_def)
  with h n t k w' show ?thesis
    by (auto simp: list_all_iff)
qed

subsection \<open>What the roster handlers leave alone\<close>

lemma frame_refl: "frame w w"
  by (simp add: frame_def)

lemma frame_trans: "frame w w' \<Longrightarrow> frame w' w'' \<Longrightarrow> frame w w''"
  by (simp add: frame_def)

lemma frame_hook: "frame w (hook self m args w)"
  by (simp add: frame_def hook_def)

lemma frame_logged: "frame w w' \<Longrightarrow> frame w (w'\<lparr>logged := l\<rparr>)"
  by (simp add: frame_def)

lemma frame_log_exn: "frame w (snd p) \<Longrightarrow> frame w (log_exn p)"
  by (cases p) (auto simp: log_exn_def frame_def split: option.splits)

lemma addUser_fields:
  "addUser r u = Inr r' \<Longrightarrow>
   state r' = state r \<and> room_status r' = room_status r \<and> entity_id r' = entity_id r"
  by (auto simp: addUser_def split: sum.splits)

lemma removeUser_fields:
  "removeUser r u = Inr r' \<Longrightarrow>
   state r' = state r \<and> room_status r' = room_status r \<and> entity_id r' = entity_id r"
  by (auto simp: removeUser_def split: sum.splits bool.splits)

lemma frame_set_room:
  "state r' = state (room_store w a) \<Longrightarrow> room_status r' = room_status (room_store w a) \<Longrightarrow>
   entity_id r' = entity_id (room_store w a) \<Longrightarrow> frame w (hook self m args (set_room a r' w))"
  by (simp add: frame_def hook_def set_room_def)

lemma frame_userLeavesRoom: "frame w (snd (userLeavesRoom self room_jid w))"
  by (auto simp: userLeavesRoom_def frame_refl split: option.splits sum.splits bool.splits
      dest!: removeUser_fields intro!: frame_set_room)

lemma frame_onUnavailablePresence: "frame w (snd (onUnavailablePresence self prs w))"
  by (simp add: onUnavailablePresence_def frame_refl frame_userLeavesRoom split: sum.splits)

lemma frame_onPresenceError: "frame w (snd (onPresenceError self prs w))"
  by (simp add: onPresenceError_def frame_refl frame_userLeavesRoom split: sum.splits)

lemma frame_onXPresence: "frame w (snd (onXPresence self prs w))"
  by (auto simp: onXPresence_def frame_refl frame_hook Let_def
      split: option.splits sum.splits bool.splits
      dest!: addUser_fields intro!: frame_set_room)

lemma frame_onGroupChat: "frame w (snd (onGroupChat self msg w))"
  by (auto simp: onGroupChat_def frame_refl frame_hook Let_def
      split: option.splits sum.splits)

lemma frame_onSubject: "frame w (snd (onSubject self msg w))"
  by (auto simp: onSubject_def frame_refl frame_hook split: option.splits sum.splits)

lemma notify_connection_observer:
  assumes "ob \<in> set connection_observers"
  shows "frame w (notify self obj w ob)"
  using assms
  by (auto simp: connection_observers_def notify_def run_callback_def frame_refl
      intro!: frame_log_exn frame_onXPresence frame_onUnavailablePresence
        frame_onPresenceError frame_onGroupChat frame_onSubject)

lemma notify_no_match: "\<not> matches (pattern ob) obj \<Longrightarrow> notify self obj w ob = w"
  by (simp add: notify_def)

lemma foldl_notify_frame:
  assumes "\<forall>ob\<in>set obs. ob \<in> set connection_observers \<or> \<not> matches (pattern ob) obj"
  shows "frame w (foldl (notify self obj) w obs)"
  using assms
proof (induction obs arbitrary: w)
  case Nil
  then show ?case by (simp add: frame_refl)
next
  case (Cons ob obs)
  then have "frame w (notify self obj w ob)"
    by (auto simp: notify_no_match frame_refl notify_connection_observer)
  moreover have "frame (notify self obj w ob) (foldl (notify self obj) (notify self obj w ob) obs)"
    using Cons by simp
  ultimately show ?case
    by (auto intro: frame_trans)
qed

lemma foldl_notify_no_match:
  "\<forall>ob\<in>set obs. \<not> matches (pattern ob) obj \<Longrightarrow> foldl (notify self obj) w obs = w"
  by (induction obs) (simp_all add: notify_no_match)

lemma dispatch_frame:
  assumes "\<forall>ob\<in>set (observers (xmlstreams w self)).
             ob \<in> set connection_observers \<or> \<not> matches (pattern ob) obj"
  shows "frame w (dispatch self obj w)"
  unfolding dispatch_def using assms by (intro foldl_notify_frame) simp

lemma sort_key_snoc_split:
  assumes "x \<notin> set xs"
  shows "\<exists>pre post. sort_key f (xs @ [x]) = pre @ x # post
           \<and> set pre \<union> set post = set xs \<and> (\<forall>y\<in>set pre. f y \<le> f x)"
proof -
  have "x \<in> set (sort_key f (xs @ [x]))"
    by simp
  then obtain pre post where s: "sort_key f (xs @ [x]) = pre @ x # post"
    by (meson split_list)
  have "mset (pre @ x # post) = mset (xs @ [x])"
    using s by (metis mset_sort)
  then have "mset pre + mset post = mset xs"
    by simp
  then have "set pre \<union> set post = set xs"
    by (metis set_mset_mset set_mset_union)
  moreover have "sorted (map f (pre @ x # post))"
    using s by (metis sorted_sort_key)
  then have "\<forall>y\<in>set pre. f y \<le> f x"
    by (auto simp: sorted_append)
  ultimately show ?thesis
    using s by blast
qed

subsection \<open>Joining a room\<close>

lemma join_result:
  assumes "internJID (rm @ ''@'' @ srv @ ''/'' @ nk) = Inr j" and "CHR 0x27 \<notin> set (full j)"
  shows "join self srv rm nk w =
     (Inr (deferred_count w),
      w\<lparr>room_store := (room_store w)(room_count w :=
           \<lparr>state = Some ''joining'', name = rm, server = srv, room_nick = nk,
            room_status = StatusInt 0, entity_id = j, roster = []\<rparr>),
        room_count := Suc (room_count w),
        rooms := AList.update (lower (userhost j)) (room_count w) (rooms w),
        deferred_count := Suc (deferred_count w),
        deferreds := deferreds w @ [deferred_count w],
        calls := (calls w)(call_count w :=
           \<lparr>dc_time = seconds w + DEFER_TIMEOUT, dc_deferred = deferred_count w,
            dc_cancelled = False, dc_called = False\<rparr>),
        call_count := Suc (call_count w),
        deferred_store := (deferred_store w)(deferred_count w :=
           \<lparr>result = None, call = call_count w\<rparr>),
        xmlstreams := (xmlstreams w)(self :=
           (xmlstreams w self)
             \<lparr>output := output (xmlstreams w self) @ [BasicPresence (Some j)],
              observers := observers (xmlstreams w self)
                @ [\<lparr>pattern = PresenceFrom (full j), handler = JoinedRoom (deferred_count w),
                    onetime = True, priority = Suc 0\<rparr>]\<rparr>)\<rparr>)"
  using assms
  by (simp add: join_def Room_def new_room_def setRoom_def sendDeferred_def callLater_def
      send_def addOnetimeObserver_def add_observer_def well_quoted_def literals_def Let_def)


text \<open>
  C3, as the code has it. The registry is state of the class, shared by all instances of
  \<^verbatim>\<open>MUCClient\<close>: a lookup gives the same answer through every instance, and a room that
  \<^verbatim>\<open>join\<close> registers through the instance \<open>h1\<close> is found under its bare JID through any
  other instance \<open>h2\<close>.
\<close>

theorem registry_shared_between_instances:
  assumes "internJID (rm @ ''@'' @ srv @ ''/'' @ nk) = Inr j" and "CHR 0x27 \<notin> set (full j)"
  shows "\<exists>d w'. join h1 srv rm nk w = (Inr d, w')
           \<and> getRoom h2 j w' = Some (room_count w)
           \<and> getRoom h2 j w' = getRoom h1 j w'
           \<and> name (room_store w' (room_count w)) = rm
           \<and> state (room_store w' (room_count w)) = Some ''joining''"
  by (simp add: join_result[OF assms] getRoom_def update_conv')

theorem registry_shared_between_instances_witness:
  "internJID (roomIdentifier @ ''@'' @ service @ ''/'' @ test_nick) = Inr occupantJID
   \<and> CHR 0x27 \<notin> set (full occupantJID)
   \<and> (\<exists>d w'. join 0 service roomIdentifier test_nick two_sessions = (Inr d, w')
           \<and> getRoom 1 occupantJID w' = Some 0
           \<and> name (room_store w' 0) = roomIdentifier
           \<and> state (room_store w' 0) = Some ''joining'')"
proof -
  have h1: "internJID (roomIdentifier @ ''@'' @ service @ ''/'' @ test_nick) = Inr occupantJID"
    by (simp add: fixture_defs jid_defs string_defs)
  have h2: "CHR 0x27 \<notin> set (full occupantJID)"
    by (simp add: fixture_defs jid_defs string_defs)
  have c: "room_count two_sessions = 0"
    unfolding two_sessions_def by (simp add: world_defs)
  show ?thesis
    using h1 h2 registry_shared_between_instances[OF h1 h2, of 0 "two_sessions" 1]
    unfolding c by blast
qed

text \<open>
  C3, as the claim states it, fails: before the handler 0 joins, a lookup of the room
  through the handler 1 finds nothing; after the handler 0 has joined, the same lookup
  through the handler 1 finds the room that the handler 0 registered.
\<close>

theorem registry_per_instance_counterexample:
  "getRoom 1 roomJID two_sessions = None
   \<and> fst (join 0 service roomIdentifier test_nick two_sessions) = Inr 0
   \<and> getRoom 1 roomJID (snd (join 0 service roomIdentifier test_nick two_sessions))
       = Some 0"
proof -
  have h1: "internJID (roomIdentifier @ ''@'' @ service @ ''/'' @ test_nick) = Inr occupantJID"
    by (simp add: fixture_defs jid_defs string_defs)
  have h2: "CHR 0x27 \<notin> set (full occupantJID)"
    by (simp add: fixture_defs jid_defs string_defs)
  have c: "room_count two_sessions = 0"
    "deferred_count two_sessions = 0" "rooms two_sessions = []"
    unfolding two_sessions_def by (simp_all add: world_defs)
  have u: "userhost roomJID = userhost occupantJID"
    by (simp add: fixture_defs jid_defs string_defs)
  show ?thesis
    by (simp add: join_result[OF h1 h2] getRoom_def c u)
qed

subsection \<open>The reply to a join\<close>


lemma joinedRoom_error:
  assumes "getAttribute prs ''from'' = Some frm" and "internJID frm = Inr room_jid"
    and "getAttribute prs ''type'' = Some ''error''"
    and "result (deferred_store w d) = None"
  shows "\<exists>w'. joinedRoom self d prs w = (None, w')
           \<and> result (deferred_store w' d) = Some (Failure (VElement prs))
           \<and> rooms w' = rooms w \<and> room_store w' = room_store w
           \<and> xmlstreams w' = xmlstreams w \<and> logged w' = logged w"
  using assms
  by (auto simp: joinedRoom_def getitem_def getAttribute_def is_error_def hasAttribute_def
      errback_def fire_def cancelTimeout_def Let_def split: option.splits)

lemma dispatch_pending:
  assumes obs: "observers (xmlstreams w self) = obs @ [ob]"
    and others: "\<forall>ob'\<in>set obs. ob' \<in> set connection_observers \<or> \<not> matches (pattern ob') obj"
    and ob: "matches (pattern ob) obj" "priority ob = 1"
  shows "frame (notify self obj w ob) (dispatch self obj w)"
proof -
  have c0: "\<forall>ob'\<in>set connection_observers. priority ob' = 0"
    by (simp add: connection_observers_def)
  then have "ob \<notin> set connection_observers"
    using ob(2) by auto
  then have notin: "ob \<notin> set obs"
    using others ob(1) by blast
  let ?f = "\<lambda>ob. - int (priority ob)"
  from sort_key_snoc_split[OF notin, of ?f] obtain pre post where
    s: "sort_key ?f (obs @ [ob]) = pre @ ob # post"
    and sets: "set pre \<union> set post = set obs"
    and le: "\<forall>y\<in>set pre. ?f y \<le> ?f ob"
    by blast
  have "\<forall>y\<in>set pre. \<not> matches (pattern y) obj"
  proof
    fix y assume y: "y \<in> set pre"
    then have "priority y \<noteq> 0"
      using le ob(2) by auto
    then have "y \<notin> set connection_observers"
      using c0 by auto
    moreover have "y \<in> set obs"
      using y sets by blast
    ultimately show "\<not> matches (pattern y) obj"
      using others by blast
  qed
  then have pre: "foldl (notify self obj) w pre = w"
    by (rule foldl_notify_no_match)
  have "\<forall>y\<in>set post. y \<in> set connection_observers \<or> \<not> matches (pattern y) obj"
    using sets others by blast
  then have "frame (notify self obj w ob) (foldl (notify self obj) (notify self obj w ob) post)"
    by (rule foldl_notify_frame)
  then show ?thesis
    by (simp add: dispatch_def obs s pre)
qed



lemma full_neq_userhost: "truthy (resource j) \<Longrightarrow> full j \<noteq> userhost j"
  by (simp add: full_def userhost_def)

text \<open>
  C1. What the code does with an error presence while a join is pending. When the error
  comes from the occupant JID \<open>full j\<close>, the one-time observer of the join is called and
  the deferred fails; the failure holds the presence stanza itself as \<^verbatim>\<open>errback\<close> was
  given it. When the error comes from the bare room JID \<open>userhost j\<close>, the query of the
  observer, which compares the sender with \<open>full j\<close>, does not match: the deferred of the
  join is not fired and still has no result after the stanza has been dispatched.
\<close>

theorem join_error_from_room_jid_not_delivered:
  assumes j: "internJID (rm @ ''@'' @ srv @ ''/'' @ nk) = Inr j"
    and q: "CHR 0x27 \<notin> set (full j)"
    and res: "truthy (resource j)"
    and others: "\<forall>ob\<in>set (observers (xmlstreams w self)).
                   ob \<in> set connection_observers
                   \<or> (\<not> matches (pattern ob) occ_prs \<and> \<not> matches (pattern ob) room_prs)"
    and occ: "el_name occ_prs = ''presence''" "getAttribute occ_prs ''from'' = Some (full j)"
      "getAttribute occ_prs ''type'' = Some ''error''"
    and room: "el_name room_prs = ''presence''"
      "getAttribute room_prs ''from'' = Some (userhost j)"
      "getAttribute room_prs ''type'' = Some ''error''"
  shows "\<exists>d w1. join self srv rm nk w = (Inr d, w1)
           \<and> result (deferred_store w1 d) = None
           \<and> result (deferred_store (dispatch self occ_prs w1) d)
               = Some (Failure (VElement occ_prs))
           \<and> result (deferred_store (dispatch self room_prs w1) d) = None"
proof -
  let ?a = "room_count w" and ?d = "deferred_count w"
  let ?ob = "\<lparr>pattern = PresenceFrom (full j), handler = JoinedRoom ?d,
              onetime = True, priority = Suc 0\<rparr>"
  obtain w1 where w1: "join self srv rm nk w = (Inr ?d, w1)"
    and d1: "deferred_store w1 ?d = \<lparr>result = None, call = call_count w\<rparr>"
    and obs1: "observers (xmlstreams w1 self) = observers (xmlstreams w self) @ [?ob]"
    by (simp add: join_result[OF j q])
  have rt: "internJID (full j) = Inr j"
    using internJID_valid[OF j] by (rule internJID_full)
  have r1: "result (deferred_store w1 ?d) = None"
    by (simp add: d1)
  \<comment> \<open>the error from the occupant JID\<close>
  from joinedRoom_error[OF occ(2) rt occ(3) r1] obtain w2 where
    w2: "joinedRoom self ?d occ_prs w1 = (None, w2)"
    and res2: "result (deferred_store w2 ?d) = Some (Failure (VElement occ_prs))"
    by blast
  have m: "matches (pattern ?ob) occ_prs"
    by (simp add: matches_def occ)
  define w3 where "w3 = notify self occ_prs w1 ?ob"
  have w3: "deferred_store w3 = deferred_store w2"
    using m by (simp add: w3_def notify_def run_callback_def w2 log_exn_def)
  have o1: "\<forall>ob\<in>set (observers (xmlstreams w self)).
              ob \<in> set connection_observers \<or> \<not> matches (pattern ob) occ_prs"
    using others by blast
  have "frame w3 (dispatch self occ_prs w1)"
    unfolding w3_def using obs1 o1 m by (rule dispatch_pending) simp
  then have "deferred_store (dispatch self occ_prs w1) = deferred_store w3"
    by (simp add: frame_def)
  then have occ_result: "result (deferred_store (dispatch self occ_prs w1) ?d)
               = Some (Failure (VElement occ_prs))"
    by (simp add: w3 res2)
  \<comment> \<open>the error from the bare room JID\<close>
  have "\<not> matches (pattern ?ob) room_prs"
    using full_neq_userhost[OF res] by (auto simp: matches_def room)
  then have "\<forall>ob\<in>set (observers (xmlstreams w1 self)).
              ob \<in> set connection_observers \<or> \<not> matches (pattern ob) room_prs"
    using others by (auto simp: obs1)
  then have "frame w1 (dispatch self room_prs w1)"
    by (rule dispatch_frame)
  then have "deferred_store (dispatch self room_prs w1) = deferred_store w1"
    by (simp add: frame_def)
  then have "result (deferred_store (dispatch self room_prs w1) ?d) = None"
    by (simp add: r1)
  with w1 r1 occ_result show ?thesis
    by blast
qed

theorem join_error_from_room_jid_not_delivered_witness:
  "internJID (roomIdentifier @ ''@'' @ service @ ''/'' @ test_nick) = Inr occupantJID
   \<and> CHR 0x27 \<notin> set (full occupantJID)
   \<and> truthy (resource occupantJID)
   \<and> observers (xmlstreams (connected [0] test_time) 0) = connection_observers
   \<and> getAttribute (forbidden_presence ''test@conference.example.org/Nick'') ''from''
       = Some (full occupantJID)
   \<and> getAttribute (forbidden_presence ''test@conference.example.org'') ''from''
       = Some (userhost occupantJID)
   \<and> (\<exists>d w1. join 0 service roomIdentifier test_nick (connected [0] test_time) = (Inr d, w1)
         \<and> result (deferred_store w1 d) = None
         \<and> result (deferred_store
                    (dispatch 0 (forbidden_presence ''test@conference.example.org/Nick'') w1) d)
             = Some (Failure (VElement
                        (forbidden_presence ''test@conference.example.org/Nick'')))
         \<and> result (deferred_store
                    (dispatch 0 (forbidden_presence ''test@conference.example.org'') w1) d)
             = None)"
proof -
  let ?w = "connected [0] test_time"
  let ?po = "forbidden_presence ''test@conference.example.org/Nick''"
  let ?pr = "forbidden_presence ''test@conference.example.org''"
  have h1: "internJID (roomIdentifier @ ''@'' @ service @ ''/'' @ test_nick) = Inr occupantJID"
    by (simp add: fixture_defs jid_defs string_defs)
  have h2: "CHR 0x27 \<notin> set (full occupantJID)"
    by (simp add: fixture_defs jid_defs string_defs)
  have h3: "truthy (resource occupantJID)"
    by (simp add: fixture_defs truthy_def)
  have h4: "\<forall>ob\<in>set (observers (xmlstreams ?w 0)).
              ob \<in> set connection_observers
              \<or> (\<not> matches (pattern ob) ?po \<and> \<not> matches (pattern ob) ?pr)"
    by (simp add: world_defs)
  have o: "el_name ?po = ''presence''" "getAttribute ?po ''from'' = Some (full occupantJID)"
    "getAttribute ?po ''type'' = Some ''error''"
    by (simp_all add: forbidden_presence_def getAttribute_def fixture_defs jid_defs string_defs)
  have r: "el_name ?pr = ''presence''" "getAttribute ?pr ''from'' = Some (userhost occupantJID)"
    "getAttribute ?pr ''type'' = Some ''error''"
    by (simp_all add: forbidden_presence_def getAttribute_def fixture_defs jid_defs string_defs)
  have obs: "observers (xmlstreams ?w 0) = connection_observers"
    by (simp add: world_defs)
  show ?thesis
    using h1 h2 h3 obs o(2) r(2)
      join_error_from_room_jid_not_delivered[OF h1 h2 h3 h4 o r]
    by blast
qed

subsection \<open>Timeouts\<close>

lemma touch_refl: "touch x w w"
  by (simp add: touch_def)

lemma touch_trans: "touch x w w' \<Longrightarrow> touch x w' w'' \<Longrightarrow> touch x w w''"
  by (simp add: touch_def)

lemma touch_fire: "fire x res w = (e, w') \<Longrightarrow> touch x w w'"
  by (auto simp: fire_def cancelTimeout_def touch_def Let_def split: if_splits)

lemma filter_pop:
  "i < length xs \<Longrightarrow> xs ! i = x \<Longrightarrow>
   filter (\<lambda>y. y \<noteq> x) (pop i xs) = filter (\<lambda>y. y \<noteq> x) xs"
proof -
  assume a: "i < length xs" "xs ! i = x"
  then have "xs = take i xs @ x # drop (Suc i) xs"
    by (metis id_take_nth_drop)
  then have "filter (\<lambda>y. y \<noteq> x) xs
             = filter (\<lambda>y. y \<noteq> x) (take i xs) @ filter (\<lambda>y. y \<noteq> x) (drop (Suc i) xs)"
    by (metis (mono_tags, lifting) filter.simps(2) filter_append)
  then show ?thesis
    by (simp add: pop_def)
qed

lemma touch_pop:
  "i < length (deferreds w) \<Longrightarrow> deferreds w ! i = x \<Longrightarrow>
   touch x w (w\<lparr>deferreds := pop i (deferreds w)\<rparr>)"
  by (simp add: touch_def filter_pop)

lemma onTimeout_loop_end:
  "\<not> i < length (deferreds w) \<Longrightarrow> onTimeout_loop d i w = (None, w)"
  by (subst onTimeout_loop.simps) simp

lemma onTimeout_loop_miss:
  "i < length (deferreds w) \<Longrightarrow> d \<noteq> deferreds w ! i \<Longrightarrow>
   onTimeout_loop d i w = onTimeout_loop d (i + 1) w"
  by (subst onTimeout_loop.simps) simp

lemma onTimeout_loop_hit:
  "i < length (deferreds w) \<Longrightarrow> d = deferreds w ! i \<Longrightarrow>
   errback d (VExc (TimeoutError ''Timeout waiting for response.''))
     (w\<lparr>deferreds := pop i (deferreds w)\<rparr>) = (e, w') \<Longrightarrow>
   onTimeout_loop d i w = (case e of Some ex \<Rightarrow> (Some ex, w') | None \<Rightarrow> onTimeout_loop d (i + 1) w')"
  by (subst onTimeout_loop.simps) (simp split: option.splits)

lemma touch_onTimeout_loop:
  "onTimeout_loop x i w = (e, w') \<Longrightarrow> touch x w w'"
proof (induction x i w arbitrary: e w' rule: onTimeout_loop.induct)
  case (1 d i w)
  show ?case
  proof (cases "i < length (deferreds w)")
    case False
    with "1.prems" show ?thesis
      by (simp add: onTimeout_loop_end touch_refl)
  next
    case True
    note i = this
    show ?thesis
    proof (cases "d = deferreds w ! i")
      case False
      with i "1.prems" have "onTimeout_loop d (i + 1) w = (e, w')"
        by (simp add: onTimeout_loop_miss)
      with "1.IH"(2)[OF i False] show ?thesis
        by simp
    next
      case True
      let ?w = "w\<lparr>deferreds := pop i (deferreds w)\<rparr>"
      obtain e1 w1 where f: "errback d (VExc (TimeoutError ''Timeout waiting for response.'')) ?w
                             = (e1, w1)"
        by (cases "errback d (VExc (TimeoutError ''Timeout waiting for response.'')) ?w") auto
      have t1: "touch d w ?w"
        using i True by (simp add: touch_pop)
      have t2: "touch d ?w w1"
        using f by (auto simp: errback_def intro: touch_fire)
      show ?thesis
      proof (cases e1)
        case (Some ex)
        with "1.prems" have "w' = w1"
          by (simp add: onTimeout_loop_hit[OF i True f])
        with t1 t2 show ?thesis
          by (auto intro: touch_trans)
      next
        case None
        with "1.prems" have "onTimeout_loop d (i + 1) w1 = (e, w')"
          by (simp add: onTimeout_loop_hit[OF i True f])
        then have "touch d w1 w'"
          by (rule "1.IH"(1)[OF i True f[symmetric] None])
        with t1 t2 show ?thesis
          by (auto intro: touch_trans)
      qed
    qed
  qed
qed

lemma fire_unfired:
  assumes "result (deferred_store w d) = None"
  shows "\<exists>w'. fire d res w = (None, w') \<and> result (deferred_store w' d) = Some res
              \<and> deferreds w' = deferreds w"
  using assms by (simp add: fire_def cancelTimeout_def Let_def)

lemma onTimeout_loop_absent:
  "d \<notin> set (drop i (deferreds w)) \<Longrightarrow> onTimeout_loop d i w = (None, w)"
proof (induction "length (deferreds w) - i" arbitrary: i)
  case 0
  then show ?case by (simp add: onTimeout_loop_end)
next
  case (Suc n)
  then have i: "i < length (deferreds w)"
    by simp
  then have "deferreds w ! i \<in> set (drop i (deferreds w))"
    by (metis Cons_nth_drop_Suc list.set_intros(1))
  with Suc.prems have ne: "d \<noteq> deferreds w ! i"
    by auto
  have "d \<notin> set (drop (i + 1) (deferreds w))"
    using Suc.prems set_drop_subset_set_drop[of i "i + 1" "deferreds w"] by auto
  moreover have "n = length (deferreds w) - (i + 1)"
    using Suc.hyps(2) by simp
  ultimately have "onTimeout_loop d (i + 1) w = (None, w)"
    by (rule Suc.hyps(1)[rotated])
  with i ne show ?case
    by (simp add: onTimeout_loop_miss)
qed

lemma onTimeout_loop_own:
  assumes "result (deferred_store w d) = None"
    and "d \<notin> set (take i (deferreds w))"
    and "filter (\<lambda>y. y = d) (drop i (deferreds w)) = [d]"
  shows "\<exists>w'. onTimeout_loop d i w = (None, w')
           \<and> result (deferred_store w' d)
               = Some (Failure (VExc (TimeoutError ''Timeout waiting for response.'')))
           \<and> d \<notin> set (deferreds w')"
  using assms
proof (induction "length (deferreds w) - i" arbitrary: i)
  case 0
  then show ?case by simp
next
  case (Suc n)
  let ?l = "deferreds w"
  from Suc.hyps(2) have i: "i < length ?l"
    by simp
  then have dr: "drop i ?l = ?l ! i # drop (Suc i) ?l"
    by (simp add: Cons_nth_drop_Suc)
  show ?case
  proof (cases "d = ?l ! i")
    case True
    have "filter (\<lambda>y. y = d) (drop (Suc i) ?l) = []"
      using Suc.prems(3) True by (simp add: dr)
    then have later: "d \<notin> set (drop (Suc i) ?l)"
      by (auto simp: filter_empty_conv)
    have gone: "d \<notin> set (pop i ?l)"
      using Suc.prems(2) later by (simp add: pop_def)
    let ?w = "w\<lparr>deferreds := pop i ?l\<rparr>"
    have "result (deferred_store ?w d) = None"
      using Suc.prems(1) by simp
    from fire_unfired[OF this,
        of "Failure (VExc (TimeoutError ''Timeout waiting for response.''))"]
    obtain w1 where
      f0: "fire d (Failure (VExc (TimeoutError ''Timeout waiting for response.''))) ?w
           = (None, w1)"
      and r: "result (deferred_store w1 d)
               = Some (Failure (VExc (TimeoutError ''Timeout waiting for response.'')))"
      and l0: "deferreds w1 = deferreds ?w"
      by blast
    have f: "errback d (VExc (TimeoutError ''Timeout waiting for response.'')) ?w = (None, w1)"
      using f0 by (simp add: errback_def)
    have l1: "deferreds w1 = pop i ?l"
      using l0 by simp
    have "d \<notin> set (drop (i + 1) (deferreds w1))"
      using gone l1 by (auto dest: in_set_dropD)
    then have "onTimeout_loop d (i + 1) w1 = (None, w1)"
      by (rule onTimeout_loop_absent)
    then have "onTimeout_loop d i w = (None, w1)"
      by (simp add: onTimeout_loop_hit[OF i True f])
    with r gone l1 show ?thesis
      by simp
  next
    case False
    have 1: "d \<notin> set (take (i + 1) ?l)"
      using Suc.prems(2) False i by (simp add: take_Suc_conv_app_nth)
    have 2: "filter (\<lambda>y. y = d) (drop (i + 1) ?l) = [d]"
      using Suc.prems(3) False by (simp add: dr)
    have 3: "n = length ?l - (i + 1)"
      using Suc.hyps(2) by simp
    from Suc.hyps(1)[OF 3 Suc.prems(1) 1 2] obtain w' where
      "onTimeout_loop d (i + 1) w = (None, w')"
      "result (deferred_store w' d)
         = Some (Failure (VExc (TimeoutError ''Timeout waiting for response.'')))"
      "d \<notin> set (deferreds w')"
      by blast
    with i False show ?thesis
      by (simp add: onTimeout_loop_miss)
  qed
qed

lemma filter_eq_of_filter_neq:
  assumes "filter (\<lambda>y. y \<noteq> x) l' = filter (\<lambda>y. y \<noteq> x) l" and "d \<noteq> x"
  shows "filter (\<lambda>y. y = d) l' = filter (\<lambda>y. y = d) l"
proof -
  have "filter (\<lambda>y. y = d) (filter (\<lambda>y. y \<noteq> x) k) = filter (\<lambda>y. y = d) k" for k
    using assms(2) by (induction k) auto
  then show ?thesis
    using assms(1) by metis
qed

lemma pending_touch:
  assumes "pending d c0 T w" and "touch x w w'" and "x < d"
  shows "pending d c0 T w'"
proof -
  have xd: "d \<noteq> x"
    using assms(3) by simp
  have "call (deferred_store w x) < c0"
    using assms(1,3) by (simp add: pending_def)
  then have c: "calls w' c0 = calls w c0"
    using assms(2) by (simp add: touch_def)
  have f: "filter (\<lambda>y. y = d) (deferreds w') = filter (\<lambda>y. y = d) (deferreds w)"
    using assms(2) xd by (intro filter_eq_of_filter_neq[of x]) (simp_all add: touch_def)
  show ?thesis
    using assms(1,2) xd c f by (simp add: pending_def touch_def)
qed

lemma timed_out_touch:
  assumes "timed_out d c0 w" and "touch x w w'" and "x \<noteq> d"
  shows "timed_out d c0 w'"
proof -
  have "filter (\<lambda>y. y = d) (deferreds w') = filter (\<lambda>y. y = d) (deferreds w)"
    using assms(2,3) by (intro filter_eq_of_filter_neq[of x]) (simp_all add: touch_def)
  moreover have "filter (\<lambda>y. y = d) (deferreds w) = []"
    using assms(1) by (auto simp: timed_out_def filter_empty_conv)
  ultimately have "d \<notin> set (deferreds w')"
    by (auto simp: filter_empty_conv)
  then show ?thesis
    using assms by (simp add: timed_out_def touch_def)
qed

lemma log_exn_fields:
  "deferred_store (log_exn p) = deferred_store (snd p)"
  "deferreds (log_exn p) = deferreds (snd p)"
  "calls (log_exn p) = calls (snd p)"
  "seconds (log_exn p) = seconds (snd p)"
  by (cases p; cases "fst p"; simp add: log_exn_def)+

lemma pending_log_exn: "pending d c0 T (snd p) \<Longrightarrow> pending d c0 T (log_exn p)"
  by (simp add: pending_def log_exn_fields)

lemma timed_out_log_exn: "timed_out d c0 (snd p) \<Longrightarrow> timed_out d c0 (log_exn p)"
  by (simp add: timed_out_def log_exn_fields)

lemma seconds_log_exn: "seconds (log_exn p) = seconds (snd p)"
  by (simp add: log_exn_fields)

lemma run_call_pending_other:
  assumes p: "pending d c0 T w" and c: "c < c0"
  shows "pending d c0 T (run_call w c) \<and> seconds (run_call w c) = seconds w"
proof (cases "dc_cancelled (calls w c) \<or> dc_called (calls w c) \<or> seconds w < dc_time (calls w c)")
  case True
  then have "run_call w c = w"
    by (simp add: run_call_def Let_def)
  then show ?thesis
    using p by simp
next
  case False
  let ?x = "dc_deferred (calls w c)"
  let ?w = "w\<lparr>calls := (calls w)(c := (calls w c)\<lparr>dc_called := True\<rparr>)\<rparr>"
  have x: "?x < d"
    using p c by (simp add: pending_def)
  have pm: "pending d c0 T ?w"
    using p c by (simp add: pending_def)
  have t: "touch ?x ?w (snd (onTimeout ?x ?w))"
    unfolding onTimeout_def by (rule touch_onTimeout_loop[OF surjective_pairing])
  have "pending d c0 T (snd (onTimeout ?x ?w))"
    using pm t x by (rule pending_touch)
  moreover have "seconds (snd (onTimeout ?x ?w)) = seconds w"
    using t by (simp add: touch_def)
  ultimately show ?thesis
    using False by (simp add: run_call_def Let_def pending_log_exn seconds_log_exn)
qed

lemma run_call_timed_out_other:
  assumes p: "timed_out d c0 w" and c: "c < c0"
  shows "timed_out d c0 (run_call w c)"
proof (cases "dc_cancelled (calls w c) \<or> dc_called (calls w c) \<or> seconds w < dc_time (calls w c)")
  case True
  then have "run_call w c = w"
    by (simp add: run_call_def Let_def)
  then show ?thesis
    using p by simp
next
  case False
  let ?x = "dc_deferred (calls w c)"
  let ?w = "w\<lparr>calls := (calls w)(c := (calls w c)\<lparr>dc_called := True\<rparr>)\<rparr>"
  have x: "?x \<noteq> d"
    using p c by (auto simp: timed_out_def)
  have pm: "timed_out d c0 ?w"
    using p by (simp add: timed_out_def)
  have t: "touch ?x ?w (snd (onTimeout ?x ?w))"
    unfolding onTimeout_def by (rule touch_onTimeout_loop[OF surjective_pairing])
  have "timed_out d c0 (snd (onTimeout ?x ?w))"
    using pm t x by (rule timed_out_touch)
  then show ?thesis
    using False by (simp add: run_call_def Let_def timed_out_log_exn)
qed

lemma run_call_own_not_due:
  "pending d c0 T w \<Longrightarrow> seconds w < T \<Longrightarrow> run_call w c0 = w"
  by (simp add: run_call_def pending_def Let_def)

lemma run_call_own_due:
  assumes p: "pending d c0 T w" and due: "T \<le> seconds w"
  shows "timed_out d c0 (run_call w c0)"
proof -
  let ?w = "w\<lparr>calls := (calls w)(c0 := (calls w c0)\<lparr>dc_called := True\<rparr>)\<rparr>"
  have r: "result (deferred_store ?w d) = None"
    using p by (simp add: pending_def)
  have "d \<notin> set (take 0 (deferreds ?w))" "filter (\<lambda>y. y = d) (drop 0 (deferreds ?w)) = [d]"
    using p by (simp_all add: pending_def)
  from onTimeout_loop_own[OF r this] obtain w' where
    o: "onTimeout d ?w = (None, w')"
    and res: "result (deferred_store w' d)
               = Some (Failure (VExc (TimeoutError ''Timeout waiting for response.'')))"
    and gone: "d \<notin> set (deferreds w')"
    unfolding onTimeout_def by blast
  have t: "touch d ?w w'"
    using o unfolding onTimeout_def by (rule touch_onTimeout_loop)
  have "timed_out d c0 w'"
    using p t res gone by (simp add: timed_out_def pending_def touch_def)
  moreover have "run_call w c0 = w'"
    using p due o by (simp add: run_call_def pending_def Let_def log_exn_def)
  ultimately show ?thesis
    by simp
qed

lemma foldl_run_call_timed_out:
  "timed_out d c0 w \<Longrightarrow> \<forall>c\<in>set l. c < c0 \<Longrightarrow> timed_out d c0 (foldl run_call w l)"
  by (induction l arbitrary: w) (simp_all add: run_call_timed_out_other)

lemma foldl_run_call_not_due:
  "pending d c0 T w \<Longrightarrow> seconds w < T \<Longrightarrow> \<forall>c\<in>set l. c \<le> c0 \<Longrightarrow>
   pending d c0 T (foldl run_call w l)"
proof (induction l arbitrary: w)
  case Nil
  then show ?case by simp
next
  case (Cons c l)
  show ?case
  proof (cases "c = c0")
    case True
    with Cons show ?thesis
      by (simp add: run_call_own_not_due)
  next
    case False
    with Cons.prems have "c < c0"
      by simp
    from run_call_pending_other[OF Cons.prems(1) this] Cons show ?thesis
      by simp
  qed
qed

lemma foldl_run_call_due:
  "pending d c0 T w \<Longrightarrow> T \<le> seconds w \<Longrightarrow> distinct l \<Longrightarrow> \<forall>c\<in>set l. c \<le> c0 \<Longrightarrow>
   c0 \<in> set l \<Longrightarrow> timed_out d c0 (foldl run_call w l)"
proof (induction l arbitrary: w)
  case Nil
  then show ?case by simp
next
  case (Cons c l)
  show ?case
  proof (cases "c = c0")
    case True
    have "timed_out d c0 (run_call w c0)"
      using Cons.prems(1,2) by (rule run_call_own_due)
    moreover have "c0 \<notin> set l"
      using Cons.prems(3) True by simp
    then have "\<forall>c\<in>set l. c < c0"
      using Cons.prems(4) by (auto simp: nat_less_le)
    ultimately show ?thesis
      using True by (simp add: foldl_run_call_timed_out)
  next
    case False
    with Cons.prems have "c < c0"
      by simp
    from run_call_pending_other[OF Cons.prems(1) this]
    have 1: "pending d c0 T (run_call w c)" and 2: "T \<le> seconds (run_call w c)"
      using Cons.prems(2) by simp_all
    have 3: "distinct l" "\<forall>c\<in>set l. c \<le> c0" "c0 \<in> set l"
      using Cons.prems False by auto
    show ?thesis
      using Cons.IH[OF 1 2 3] by simp
  qed
qed

lemma pending_frame: "frame w w' \<Longrightarrow> pending d c0 T w \<Longrightarrow> pending d c0 T w'"
  by (simp add: frame_def pending_def)

lemma deliver_frame:
  assumes "\<forall>ob\<in>set (observers (xmlstreams w self)).
             ob \<in> set connection_observers \<or> (\<forall>s\<in>set ss. \<not> matches (pattern ob) s)"
  shows "frame w (deliver self ss w)"
  using assms
proof (induction ss arbitrary: w)
  case Nil
  then show ?case by (simp add: deliver_def frame_refl)
next
  case (Cons s ss)
  have 1: "frame w (dispatch self s w)"
    using Cons.prems by (intro dispatch_frame) auto
  then have "xmlstreams (dispatch self s w) = xmlstreams w"
    by (simp add: frame_def)
  then have "frame (dispatch self s w) (deliver self ss (dispatch self s w))"
    using Cons.prems by (intro Cons.IH) auto
  with 1 show ?case
    by (auto simp: deliver_def intro: frame_trans)
qed

lemma pending_seconds: "pending d c0 T w \<Longrightarrow> pending d c0 T (w\<lparr>seconds := s\<rparr>)"
  by (simp add: pending_def)

text \<open>
  C9. A join that gets no reply times out. \<^verbatim>\<open>join\<close> returns a deferred \<open>d\<close> that is in the
  list of pending deferreds and has no result. Let any stanzas arrive on the stream of the
  handler, none of them a presence from the occupant JID \<open>full j\<close> (and none of them the
  reply that some other pending request on that stream waits for). Then for every time
  \<open>t\<close> below \<^verbatim>\<open>DEFER_TIMEOUT\<close> that passes on the reactor, \<open>d\<close> still has no result and is
  still pending; and once \<^verbatim>\<open>DEFER_TIMEOUT\<close> = 30 has passed, \<open>d\<close> has failed with a
  TimeoutError, which is not a stanza error, and is no longer in the list of pending
  deferreds. The state before the join is any state in which the pending list, the delayed
  calls and the deferreds name only objects that exist.
\<close>

theorem join_times_out:
  assumes j: "internJID (rm @ ''@'' @ srv @ ''/'' @ nk) = Inr j"
    and q: "CHR 0x27 \<notin> set (full j)"
    and a: "allocated w"
    and others: "\<forall>ob\<in>set (observers (xmlstreams w self)).
                   ob \<in> set connection_observers
                   \<or> (\<forall>s\<in>set stanzas. \<not> matches (pattern ob) s)"
    and no_reply: "\<forall>s\<in>set stanzas. \<not> matches (PresenceFrom (full j)) s"
  shows "DEFER_TIMEOUT = 30
         \<and> (\<exists>d w1. join self srv rm nk w = (Inr d, w1)
              \<and> d \<in> set (deferreds w1) \<and> result (deferred_store w1 d) = None
              \<and> (\<forall>t<DEFER_TIMEOUT.
                    result (deferred_store (advance t (deliver self stanzas w1)) d) = None
                    \<and> d \<in> set (deferreds (advance t (deliver self stanzas w1))))
              \<and> result (deferred_store (advance DEFER_TIMEOUT (deliver self stanzas w1)) d)
                  = Some (Failure (VExc (TimeoutError ''Timeout waiting for response.'')))
              \<and> (\<forall>c. result (deferred_store (advance DEFER_TIMEOUT (deliver self stanzas w1)) d)
                        \<noteq> Some (Failure (VExc (StanzaError c))))
              \<and> d \<notin> set (deferreds (advance DEFER_TIMEOUT (deliver self stanzas w1))))"
proof -
  let ?d = "deferred_count w" and ?c = "call_count w"
  let ?T = "seconds w + DEFER_TIMEOUT"
  let ?ob = "\<lparr>pattern = PresenceFrom (full j), handler = JoinedRoom ?d,
              onetime = True, priority = Suc 0\<rparr>"
  obtain w1 where w1: "join self srv rm nk w = (Inr ?d, w1)"
    and d1: "deferred_store w1 = (deferred_store w)(?d := \<lparr>result = None, call = ?c\<rparr>)"
    and l1: "deferreds w1 = deferreds w @ [?d]"
    and c1: "calls w1 = (calls w)(?c := \<lparr>dc_time = ?T, dc_deferred = ?d,
                                          dc_cancelled = False, dc_called = False\<rparr>)"
    and n1: "call_count w1 = Suc ?c" and s1: "seconds w1 = seconds w"
    and obs1: "observers (xmlstreams w1 self) = observers (xmlstreams w self) @ [?ob]"
    by (simp add: join_result[OF j q])
  have fresh: "?d \<notin> set (deferreds w)"
    using a by (auto simp: allocated_def)
  have p1: "pending ?d ?c ?T w1"
    using a fresh by (auto simp: pending_def d1 l1 c1 allocated_def filter_empty_conv)
  define w2 where "w2 = deliver self stanzas w1"
  have "\<forall>ob\<in>set (observers (xmlstreams w1 self)).
          ob \<in> set connection_observers \<or> (\<forall>s\<in>set stanzas. \<not> matches (pattern ob) s)"
    using others no_reply by (auto simp: obs1)
  then have f: "frame w1 w2"
    unfolding w2_def by (rule deliver_frame)
  then have p2: "pending ?d ?c ?T w2"
    using p1 by (rule pending_frame)
  have n2: "call_count w2 = Suc ?c" and s2: "seconds w2 = seconds w"
    using f n1 s1 by (simp_all add: frame_def)
  have adv: "advance t w2 = foldl run_call (w2\<lparr>seconds := seconds w + t\<rparr>)
               (sort_key (\<lambda>c. dc_time (calls w2 c)) [0..<Suc ?c])" for t
    by (simp add: advance_def Let_def n2 s2)
  let ?l = "sort_key (\<lambda>c. dc_time (calls w2 c)) [0..<Suc ?c]"
  have l: "distinct ?l" "\<forall>c\<in>set ?l. c \<le> ?c" "?c \<in> set ?l"
    by auto
  have early: "result (deferred_store (advance t w2) ?d) = None
               \<and> ?d \<in> set (deferreds (advance t w2))" if "t < DEFER_TIMEOUT" for t
  proof -
    have "pending ?d ?c ?T (advance t w2)"
      unfolding adv using pending_seconds[OF p2] l(2) that
      by (intro foldl_run_call_not_due) simp_all
    then have 1: "deferred_store (advance t w2) ?d = \<lparr>result = None, call = ?c\<rparr>"
      and 2: "filter (\<lambda>y. y = ?d) (deferreds (advance t w2)) = [?d]"
      by (simp_all add: pending_def)
    have "?d \<in> set (filter (\<lambda>y. y = ?d) (deferreds (advance t w2)))"
      unfolding 2 by simp
    then have "?d \<in> set (deferreds (advance t w2))"
      by simp
    then show ?thesis
      by (simp add: 1)
  qed
  have "timed_out ?d ?c (advance DEFER_TIMEOUT w2)"
    unfolding adv using pending_seconds[OF p2] l
    by (intro foldl_run_call_due[where T = ?T]) simp_all
  then have late: "result (deferred_store (advance DEFER_TIMEOUT w2) ?d)
                   = Some (Failure (VExc (TimeoutError ''Timeout waiting for response.'')))"
    "?d \<notin> set (deferreds (advance DEFER_TIMEOUT w2))"
    by (simp_all add: timed_out_def)
  have "?d \<in> set (deferreds w1)" "result (deferred_store w1 ?d) = None"
    by (simp_all add: l1 d1)
  with w1 early late show ?thesis
    unfolding w2_def by (simp add: DEFER_TIMEOUT_def)
qed

theorem join_times_out_witness:
  "internJID (roomIdentifier @ ''@'' @ service @ ''/'' @ test_nick) = Inr occupantJID
   \<and> CHR 0x27 \<notin> set (full occupantJID)
   \<and> allocated (connected [0] test_time)
   \<and> observers (xmlstreams (connected [0] test_time) 0) = connection_observers
   \<and> matches (PresenceFrom (full occupantJID))
         (forbidden_presence ''test@conference.example.org'') = False
   \<and> (\<exists>d w1. join 0 service roomIdentifier test_nick (connected [0] test_time) = (Inr d, w1)
         \<and> d \<in> set (deferreds w1) \<and> result (deferred_store w1 d) = None
         \<and> result (deferred_store
              (advance 29 (deliver 0 [forbidden_presence ''test@conference.example.org''] w1)) d)
             = None
         \<and> result (deferred_store
              (advance 30 (deliver 0 [forbidden_presence ''test@conference.example.org''] w1)) d)
             = Some (Failure (VExc (TimeoutError ''Timeout waiting for response.'')))
         \<and> d \<notin> set (deferreds
              (advance 30 (deliver 0 [forbidden_presence ''test@conference.example.org''] w1))))"
proof -
  let ?w = "connected [0] test_time"
  let ?ss = "[forbidden_presence ''test@conference.example.org'']"
  have h1: "internJID (roomIdentifier @ ''@'' @ service @ ''/'' @ test_nick) = Inr occupantJID"
    by (simp add: fixture_defs jid_defs string_defs)
  have h2: "CHR 0x27 \<notin> set (full occupantJID)"
    by (simp add: fixture_defs jid_defs string_defs)
  have h3: "allocated ?w"
    by (simp add: allocated_def world_defs)
  have h4: "\<forall>ob\<in>set (observers (xmlstreams ?w 0)).
              ob \<in> set connection_observers \<or> (\<forall>s\<in>set ?ss. \<not> matches (pattern ob) s)"
    by (simp add: world_defs)
  have h5: "\<forall>s\<in>set ?ss. \<not> matches (PresenceFrom (full occupantJID)) s"
    by (simp add: matches_def forbidden_presence_def getAttribute_def fixture_defs jid_defs
        string_defs)
  from join_times_out[OF h1 h2 h3 h4 h5] obtain d w1 where
    1: "join 0 service roomIdentifier test_nick ?w = (Inr d, w1)"
    "d \<in> set (deferreds w1)" "result (deferred_store w1 d) = None"
    and 2: "\<forall>t<DEFER_TIMEOUT. result (deferred_store (advance t (deliver 0 ?ss w1)) d) = None"
    and 3: "result (deferred_store (advance DEFER_TIMEOUT (deliver 0 ?ss w1)) d)
             = Some (Failure (VExc (TimeoutError ''Timeout waiting for response.'')))"
    "d \<notin> set (deferreds (advance DEFER_TIMEOUT (deliver 0 ?ss w1)))"
    by blast
  have "result (deferred_store (advance 29 (deliver 0 ?ss w1)) d) = None"
    using 2 by (simp add: DEFER_TIMEOUT_def)
  moreover have "observers (xmlstreams ?w 0) = connection_observers"
    by (simp add: world_defs)
  moreover have "matches (PresenceFrom (full occupantJID))
         (forbidden_presence ''test@conference.example.org'') = False"
    using h5 by simp
  ultimately show ?thesis
    using 1 3 h1 h2 h3 unfolding DEFER_TIMEOUT_def by blast
qed

end
